theory Spec2Isabelle
  imports Complex_Main "HOL-Library.Word"
begin

unbundle bit_operations_syntax

section \<open>quorabroker: the fetch pipeline of main.py\<close>

text \<open>
  The service of \<^verbatim>\<open>main.py\<close> pulls fetch tasks from a Kafka consumer (or a synthetic
  generator), fetches every task over HTTP, optionally extracts question and answer text
  with a browser, and stores the page document. What the code reaches through the
  objects of other packages (the HTTP client, the clock, the entropy source, the browser
  driver, the store driver, pydantic and json, BeautifulSoup) is an input of the model.
  The logger is the one \<^verbatim>\<open>configure_logging\<close> returns. Every \<^verbatim>\<open>try\<close>/\<^verbatim>\<open>except\<close>, every
  \<^verbatim>\<open>or\<close> fallback and every guard of the source is a branch of a definition here.
\<close>

subsection \<open>Exceptions, tasks, page documents\<close>

text \<open>
  A raised Python exception carries \<^verbatim>\<open>str(exc)\<close>. The handlers of the source are all
  \<^verbatim>\<open>except Exception\<close>, which catches the classes below \<^verbatim>\<open>Exception\<close> (the errors of
  httpx, pydantic and json are of this kind, and so are \<^verbatim>\<open>TypeError\<close>,
  \<^verbatim>\<open>AttributeError\<close>, \<^verbatim>\<open>ValueError\<close> and \<^verbatim>\<open>NotImplementedError\<close>) and lets the other
  subclasses of \<^verbatim>\<open>BaseException\<close> through: \<^verbatim>\<open>asyncio.CancelledError\<close>, and
  \<^verbatim>\<open>KeyboardInterrupt\<close> and the like (\<open>BaseException\<close> here).
\<close>

datatype py_exc = Exception string | CancelledError | BaseException string

text \<open>
  \<^verbatim>\<open>class FetchTask(BaseModel)\<close>: a validated task; \<open>url\<close> holds \<^verbatim>\<open>str(task.url)\<close>, the
  text of the URL as pydantic renders it.
\<close>

record FetchTask =
  url :: string
  id' :: "string option"
  priority :: "int option"

text \<open>
  \<^verbatim>\<open>class PageDocument(TypedDict, total=False)\<close>. The keys \<^verbatim>\<open>_id\<close> and \<^verbatim>\<open>url\<close> are the
  fields \<open>doc_id\<close> and \<open>doc_url\<close>. A key that is not in the dictionary reads as \<open>None\<close>,
  as \<^verbatim>\<open>dict.get\<close> returns it. \<^verbatim>\<open>latency_ms\<close> is a Python float, given by the rational
  it denotes.
\<close>

record PageDocument =
  doc_id :: string
  doc_url :: string
  status_code :: "int option"
  fetched_at :: string
  latency_ms :: rat
  content_length :: nat
  html :: "string option"
  error :: "string option"
  meta :: "(string \<times> int option) list"
  question :: "string option"
  answer :: "string option"

subsection \<open>The logger: \<^verbatim>\<open>configure_logging\<close> and the calls on its result\<close>

datatype level = INFO | WARNING | ERROR

datatype pyval = PyNone | PyStr string | PyInt int | PyBool bool | PyFloat rat
  | PyDict "(string \<times> pyval) list"

text \<open>A line the logger has emitted: level, message, keyed values.\<close>

type_synonym log_entry = "level \<times> string \<times> (string \<times> pyval) list"

text \<open>
  The logger of the service is \<^verbatim>\<open>logging.getLogger("quorabroker")\<close> of the standard
  library, given here by its effective level: the number of the level name handed to
  \<^verbatim>\<open>logging.basicConfig\<close>, in a process whose root logger has no handler yet.
\<close>

type_synonym logger = nat

fun levelno :: "level \<Rightarrow> nat" where
  "levelno INFO = 20"
| "levelno WARNING = 30"
| "levelno ERROR = 40"

text \<open>\<^verbatim>\<open>logging._nameToLevel\<close>.\<close>

definition nameToLevel :: "string \<Rightarrow> nat option" where
  "nameToLevel = map_of [(''CRITICAL'', 50), (''FATAL'', 50), (''ERROR'', 40), (''WARN'', 30),
                         (''WARNING'', 30), (''INFO'', 20), (''DEBUG'', 10), (''NOTSET'', 0)]"

text \<open>A name between single quotes, as Python's messages show it.\<close>

definition quoted :: "string \<Rightarrow> string" where
  "quoted s = CHR 0x27 # s @ [CHR 0x27]"

text \<open>
  \<^verbatim>\<open>configure_logging(level)\<close>; \<open>structlog\<close> says whether the package was imported. With
  structlog, the argument \<^verbatim>\<open>getattr(structlog, level, structlog.INFO)\<close> is evaluated
  before anything is configured, and the module has no attribute \<^verbatim>\<open>INFO\<close>. Without it,
  \<^verbatim>\<open>logging.basicConfig(level=level)\<close> raises \<^verbatim>\<open>ValueError\<close> on a name that is not a
  level, and the logger returned has the level set on the root logger.
\<close>

definition configure_logging :: "bool \<Rightarrow> string \<Rightarrow> py_exc + logger" where
  "configure_logging structlog lv =
     (if structlog then
        Inl (Exception (''module '' @ quoted ''structlog'' @ '' has no attribute '' @ quoted ''INFO''))
      else case nameToLevel lv of
             None \<Rightarrow> Inl (Exception (''Unknown level: '' @ quoted lv))
           | Some n \<Rightarrow> Inr n)"

text \<open>
  A call \<^verbatim>\<open>logger.error("event", key=value, ...)\<close>, and likewise \<^verbatim>\<open>info\<close> and
  \<^verbatim>\<open>warning\<close>. The method returns at once when the level is not enabled. Otherwise it
  hands the keyword arguments to \<^verbatim>\<open>Logger._log\<close>, which takes none of the keys the
  service uses and raises \<^verbatim>\<open>TypeError\<close> on the first one; a call without keyword
  arguments emits the line.
\<close>

definition log_call :: "logger \<Rightarrow> level \<Rightarrow> string \<Rightarrow> (string \<times> pyval) list \<Rightarrow> py_exc + log_entry list" where
  "log_call lgr lv event kw =
     (if levelno lv < lgr then Inr []
      else case kw of
             [] \<Rightarrow> Inr [(lv, event, [])]
           | (k, v) # rest \<Rightarrow>
               Inl (Exception (''Logger._log() got an unexpected keyword argument '' @ quoted k)))"

text \<open>A call without keyword arguments: the line, when the level is enabled.\<close>

definition emit :: "logger \<Rightarrow> level \<Rightarrow> string \<Rightarrow> log_entry list" where
  "emit lgr lv event = (if levelno lv < lgr then [] else [(lv, event, [])])"

subsection \<open>Python built-ins used by the code\<close>

text \<open>Truthiness of an \<^verbatim>\<open>Optional[str]\<close>: \<^verbatim>\<open>None\<close> and \<^verbatim>\<open>""\<close> are falsy.\<close>

fun truthy :: "string option \<Rightarrow> bool" where
  "truthy None = False"
| "truthy (Some s) = (s \<noteq> [])"

text \<open>\<^verbatim>\<open>a or b\<close> on an optional string \<open>a\<close> and a string \<open>b\<close>.\<close>

definition or_else :: "string option \<Rightarrow> string \<Rightarrow> string" where
  "or_else a b = (if truthy a then the a else b)"

text \<open>
  Floats are IEEE doubles, each given by the rational it denotes. \<open>double x\<close> is the
  double nearest to \<open>x\<close>, a tie going to the even significand: 53 bits at the exponent
  of \<open>x\<close>, and no finer than \<open>2\<close> to the \<open>-1074\<close>. Overflow to infinity is left out: the
  values here are clock readings, their differences, and configured timeouts.
\<close>

text \<open>\<^verbatim>\<open>int.bit_length()\<close> on a natural number.\<close>

function bit_length :: "nat \<Rightarrow> nat" where
  "bit_length n = (if n = 0 then 0 else Suc (bit_length (n div 2)))"
  by pat_completeness auto
termination
  by (relation "measure (\<lambda>n. n)") auto

declare bit_length.simps [simp del]

text \<open>The integer nearest to \<open>y\<close>, a tie going to the even one.\<close>

definition round_even :: "rat \<Rightarrow> int" where
  "round_even y =
     (let f = \<lfloor>y\<rfloor>; d = y - of_int f
      in if d < 1 / 2 then f
         else if 1 / 2 < d then f + 1
         else if even f then f else f + 1)"

definition pow2 :: "int \<Rightarrow> rat" where
  "pow2 e = (if 0 \<le> e then 2 ^ nat e else 1 / 2 ^ nat (- e))"

text \<open>For \<open>0 < a\<close>, the exponent \<open>k\<close> with \<open>pow2 k \<le> a < pow2 (k + 1)\<close>.\<close>

definition ilog2 :: "rat \<Rightarrow> int" where
  "ilog2 a =
     (if 1 \<le> a then int (bit_length (nat \<lfloor>a\<rfloor>)) - 1
      else - int (bit_length (nat (\<lceil>1 / a\<rceil> - 1))))"

definition double :: "rat \<Rightarrow> rat" where
  "double x =
     (if x = 0 then 0
      else let e = max (ilog2 \<bar>x\<bar> - 52) (- 1074)
           in sgn x * of_int (round_even (\<bar>x\<bar> / pow2 e)) * pow2 e)"

text \<open>
  \<^verbatim>\<open>round(x, 2)\<close> on a float: the value of \<open>x\<close> is rounded to two decimal places, a tie
  going to the even neighbour, and the double nearest to that decimal is returned.
\<close>

definition round2 :: "rat \<Rightarrow> rat" where
  "round2 x = double (of_int (round_even (x * 100)) / 100)"

text \<open>\<^verbatim>\<open>(time.perf_counter() - started) * 1000\<close> in floats, and \<^verbatim>\<open>int(x)\<close> on a float.\<close>

definition elapsed_ms :: "rat \<Rightarrow> rat \<Rightarrow> rat" where
  "elapsed_ms started finished = double (double (finished - started) * 1000)"

definition py_trunc :: "rat \<Rightarrow> int" where
  "py_trunc x = (if 0 \<le> x then \<lfloor>x\<rfloor> else \<lceil>x\<rceil>)"

text \<open>
  \<^verbatim>\<open>os.urandom(8).hex()\<close>: the eight random bytes are a 64-bit word, first byte in the
  top bits; \<^verbatim>\<open>hex\<close> writes two lower-case hexadecimal digits per byte, first byte first.
\<close>

definition hex_digit :: "nat \<Rightarrow> char" where
  "hex_digit n = ''0123456789abcdef'' ! n"

definition nibble :: "64 word \<Rightarrow> nat \<Rightarrow> nat" where
  "nibble w i = unat (drop_bit (4 * i) w AND 15)"

definition hex :: "64 word \<Rightarrow> string" where
  "hex w = map (\<lambda>i. hex_digit (nibble w i)) (rev [0..<16])"

subsection \<open>Fetch Stage: \<^verbatim>\<open>Fetcher.fetch\<close>\<close>

text \<open>\<^verbatim>\<open>httpx.Response\<close>: the fields \<^verbatim>\<open>fetch\<close> reads.\<close>

record response =
  resp_status_code :: int
  resp_content :: "8 word list"
  resp_text :: string

text \<open>
  What one call of \<^verbatim>\<open>fetch\<close> reads from outside: the two readings of
  \<^verbatim>\<open>time.perf_counter()\<close> (on entry, and after the response or the failure), the
  formatted \<^verbatim>\<open>time.gmtime()\<close>, the bytes of \<^verbatim>\<open>os.urandom(8)\<close>, and the outcome of
  \<^verbatim>\<open>await self._client.get(url)\<close>.
\<close>

record fetch_world =
  perf_started :: rat
  perf_finished :: rat
  gmtime_now :: string
  urandom8 :: "64 word"
  client_get :: "string \<Rightarrow> py_exc + response"

text \<open>
  \<^verbatim>\<open>fetch\<close>. In the handler the call of \<^verbatim>\<open>self._logger.error\<close> comes before the
  \<^verbatim>\<open>return\<close>: when it raises, the exception leaves \<^verbatim>\<open>fetch\<close>.
\<close>

definition fetch :: "logger \<Rightarrow> fetch_world \<Rightarrow> FetchTask \<Rightarrow> py_exc + (PageDocument \<times> log_entry list)" where
  "fetch lgr w task =
     (let started = perf_started w in
      case client_get w (url task) of
        Inr resp \<Rightarrow>
          (let latency = elapsed_ms started (perf_finished w) in
           Inr (\<lparr> doc_id = or_else (id' task) (hex (urandom8 w)),
                  doc_url = url task,
                  status_code = Some (resp_status_code resp),
                  fetched_at = gmtime_now w,
                  latency_ms = round2 latency,
                  content_length = length (resp_content resp),
                  html = Some (resp_text resp),
                  error = None,
                  meta = [(''priority'', priority task)],
                  question = None,
                  answer = None \<rparr>, []))
      | Inl (Exception msg) \<Rightarrow>
          (let latency = elapsed_ms started (perf_finished w) in
           case log_call lgr ERROR ''fetch_failed'' [(''url'', PyStr (url task)), (''error'', PyStr msg)] of
             Inl e \<Rightarrow> Inl e
           | Inr lg \<Rightarrow>
               Inr (\<lparr> doc_id = or_else (id' task) (hex (urandom8 w)),
                      doc_url = url task,
                      status_code = None,
                      fetched_at = gmtime_now w,
                      latency_ms = round2 latency,
                      content_length = 0,
                      html = None,
                      error = Some msg,
                      meta = [(''priority'', priority task)],
                      question = None,
                      answer = None \<rparr>, lg))
      | Inl e \<Rightarrow> Inl e)"

subsection \<open>Extraction Stage: \<^verbatim>\<open>BrowserWorker.extract\<close>\<close>

text \<open>
  \<^verbatim>\<open>str.strip()\<close>: the characters Python counts as whitespace, among the code points
  below 256, are removed at both ends.
\<close>

definition is_space :: "char \<Rightarrow> bool" where
  "is_space c = (c \<in> set [CHR '' '', CHR 0x09, CHR 0x0A, CHR 0x0B, CHR 0x0C, CHR 0x0D,
                             CHR 0x1C, CHR 0x1D, CHR 0x1E, CHR 0x1F, CHR 0x85, CHR 0xA0])"

definition strip :: "string \<Rightarrow> string" where
  "strip s = rev (dropWhile is_space (rev (dropWhile is_space s)))"

definition QUESTION_SELECTOR :: string where
  "QUESTION_SELECTOR = ''div.puppeteer_test_question_title''"

definition ANSWER_P_SELECTOR :: string where
  "ANSWER_P_SELECTOR = ''p.q-text.qu-display--block.qu-wordBreak--break-word.qu-textAlign--start''"

text \<open>
  A Selenium element is what reading its \<^verbatim>\<open>.text\<close> gives; a loaded page is what
  \<^verbatim>\<open>find_element(By.CSS_SELECTOR, selector)\<close> gives for every selector.
\<close>

type_synonym web_element = "py_exc + string"
type_synonym page = "string \<Rightarrow> py_exc + web_element"

record browser_world =
  ext_started :: rat
  ext_finished :: rat
  driver_get :: "string \<Rightarrow> py_exc + page"

definition safe_find_css :: "page \<Rightarrow> string \<Rightarrow> py_exc + web_element option" where
  "safe_find_css p selector =
     (case p selector of
        Inr el \<Rightarrow> Inr (Some el)
      | Inl (Exception msg) \<Rightarrow> Inr None
      | Inl e \<Rightarrow> Inl e)"

text \<open>\<^verbatim>\<open>if el: text = el.text.strip()\<close>; an element object is truthy.\<close>

definition read_text :: "web_element option \<Rightarrow> py_exc + string option" where
  "read_text el =
     (case el of
        None \<Rightarrow> Inr None
      | Some (Inl e) \<Rightarrow> Inl e
      | Some (Inr s) \<Rightarrow> Inr (Some (strip s)))"

text \<open>The body of the \<^verbatim>\<open>try\<close>: the two texts assigned so far and the exception that ended it, if any.\<close>

definition extract_body :: "page \<Rightarrow> string option \<times> string option \<times> py_exc option" where
  "extract_body p =
     (case safe_find_css p QUESTION_SELECTOR of
        Inl e \<Rightarrow> (None, None, Some e)
      | Inr q_el \<Rightarrow>
         (case read_text q_el of
            Inl e \<Rightarrow> (None, None, Some e)
          | Inr question_text \<Rightarrow>
             (case safe_find_css p ANSWER_P_SELECTOR of
                Inl e \<Rightarrow> (question_text, None, Some e)
              | Inr a_el \<Rightarrow>
                 (case read_text a_el of
                    Inl e \<Rightarrow> (question_text, None, Some e)
                  | Inr answer_text \<Rightarrow> (question_text, answer_text, None)))))"

text \<open>
  \<^verbatim>\<open>extract\<close>. \<^verbatim>\<open>self._driver.get(url)\<close> is outside the \<^verbatim>\<open>try\<close>. The handler logs an
  exception of the body and swallows it, unless the logging call raises; the
  \<^verbatim>\<open>finally\<close> block logs in every case, and an exception of its logging call replaces
  the one in flight.
\<close>

definition BrowserWorker_extract :: "logger \<Rightarrow> browser_world \<Rightarrow> string \<Rightarrow> log_entry list \<times> (py_exc + (string option \<times> string option))" where
  "BrowserWorker_extract lgr bw u =
     (case driver_get bw u of
        Inl e \<Rightarrow> ([], Inl e)
      | Inr p \<Rightarrow>
         (let (question_text, answer_text, raised) = extract_body p;
              (lg1, in_flight) =
                 (case raised of
                    None \<Rightarrow> ([], None)
                  | Some (Exception msg) \<Rightarrow>
                      (case log_call lgr WARNING ''selenium_extract_issue'' [(''error'', PyStr msg)] of
                         Inl e \<Rightarrow> ([], Some e)
                       | Inr lg \<Rightarrow> (lg, None))
                  | Some e \<Rightarrow> ([], Some e))
          in case log_call lgr INFO ''selenium_extracted''
                    [(''url'', PyStr u),
                     (''latency_ms'', PyInt (py_trunc (elapsed_ms (ext_started bw) (ext_finished bw)))),
                     (''have_question'', PyBool (truthy question_text)),
                     (''have_answer'', PyBool (truthy answer_text))] of
               Inl e \<Rightarrow> (lg1, Inl e)
             | Inr lg2 \<Rightarrow>
                 (lg1 @ lg2,
                  case in_flight of
                    None \<Rightarrow> Inr (question_text, answer_text)
                  | Some e \<Rightarrow> Inl e)))"

subsection \<open>Configuration: \<^verbatim>\<open>Config\<close> of main.py and \<^verbatim>\<open>Settings\<close> of quorabroker/config.py\<close>

text \<open>
  \<^verbatim>\<open>int(s)\<close> and \<^verbatim>\<open>float(s)\<close> on plain decimal literals: surrounding whitespace, an
  optional sign, digits, and for \<^verbatim>\<open>float\<close> an optional fraction; \<^verbatim>\<open>float\<close> returns
  the double nearest to the decimal. Any other string is a \<^verbatim>\<open>ValueError\<close> here (Python
  also reads exponents, underscores, \<^verbatim>\<open>inf\<close> and \<^verbatim>\<open>nan\<close>).
\<close>

definition digit_val :: "char \<Rightarrow> nat option" where
  "digit_val c = map_of (zip ''0123456789'' [0, 1, 2, 3, 4, 5, 6, 7, 8, 9]) c"

fun digits_val :: "nat \<Rightarrow> string \<Rightarrow> nat option" where
  "digits_val acc [] = Some acc"
| "digits_val acc (c # cs) =
     (case digit_val c of None \<Rightarrow> None | Some d \<Rightarrow> digits_val (10 * acc + d) cs)"

definition split_sign :: "string \<Rightarrow> bool \<times> string" where
  "split_sign s =
     (case s of
        c # r \<Rightarrow> if c = CHR ''-'' then (True, r) else if c = CHR ''+'' then (False, r) else (False, s)
      | [] \<Rightarrow> (False, s))"

definition py_int :: "string \<Rightarrow> py_exc + int" where
  "py_int s =
     (let (neg, body) = split_sign (strip s) in
      if body = [] then Inl (Exception ''invalid literal for int()'')
      else case digits_val 0 body of
             None \<Rightarrow> Inl (Exception ''invalid literal for int()'')
           | Some n \<Rightarrow> Inr (if neg then - int n else int n))"

definition py_float :: "string \<Rightarrow> py_exc + rat" where
  "py_float s =
     (let (neg, body) = split_sign (strip s);
          ip = takeWhile (\<lambda>c. c \<noteq> CHR ''.'') body;
          fp = drop (length ip + 1) body
      in if ip = [] \<and> fp = [] then Inl (Exception ''could not convert string to float'')
         else case (digits_val 0 ip, digits_val 0 fp) of
                (Some i, Some f) \<Rightarrow>
                  (let v = of_nat i + of_nat f / 10 ^ length fp in Inr (double (if neg then - v else v)))
              | _ \<Rightarrow> Inl (Exception ''could not convert string to float''))"

text \<open>\<^verbatim>\<open>str.upper()\<close> and \<^verbatim>\<open>str.lower()\<close> on ASCII letters.\<close>

definition upper :: "string \<Rightarrow> string" where
  "upper s = map (\<lambda>c. case map_of (zip ''abcdefghijklmnopqrstuvwxyz'' ''ABCDEFGHIJKLMNOPQRSTUVWXYZ'') c of
                         None \<Rightarrow> c | Some u \<Rightarrow> u) s"

definition lower :: "string \<Rightarrow> string" where
  "lower s = map (\<lambda>c. case map_of (zip ''ABCDEFGHIJKLMNOPQRSTUVWXYZ'' ''abcdefghijklmnopqrstuvwxyz'') c of
                         None \<Rightarrow> c | Some l \<Rightarrow> l) s"

text \<open>
  \<^verbatim>\<open>os.environ\<close>, after \<^verbatim>\<open>load_dotenv\<close> when there is one; \<^verbatim>\<open>os.getenv(name)\<close> is
  \<open>environ name\<close>.
\<close>

type_synonym environ = "string \<Rightarrow> string option"

text \<open>\<^verbatim>\<open>os.getenv(name, default)\<close>: the default only when the variable is not set.\<close>

definition getenv_default :: "environ \<Rightarrow> string \<Rightarrow> string \<Rightarrow> string" where
  "getenv_default env name dflt = (case env name of None \<Rightarrow> dflt | Some v \<Rightarrow> v)"

text \<open>Evaluation in sequence: the first exception raised ends it.\<close>

definition and_then :: "py_exc + 'a \<Rightarrow> ('a \<Rightarrow> py_exc + 'b) \<Rightarrow> py_exc + 'b" where
  "and_then r f = (case r of Inl e \<Rightarrow> Inl e | Inr v \<Rightarrow> f v)"

record Config =
  kafka_bootstrap_servers :: string
  kafka_topic :: string
  mongo_uri :: "string option"
  mongo_db :: string
  mongo_collection :: string
  http_timeout_seconds :: rat
  max_concurrent_fetches :: int
  user_agent :: string
  log_level :: string

text \<open>
  \<^verbatim>\<open>os.getenv(NAME) or cls.field\<close>: the value of the variable when it is set and not
  empty. Otherwise the class attribute is read, and pydantic keeps the fields of a model
  out of the attributes of its class: the read raises \<^verbatim>\<open>AttributeError\<close>, whose text
  is the name of the field.
\<close>

definition getenv_or_cls :: "environ \<Rightarrow> string \<Rightarrow> string \<Rightarrow> py_exc + string" where
  "getenv_or_cls env name field =
     (if truthy (env name) then Inr (the (env name)) else Inl (Exception field))"

text \<open>
  \<^verbatim>\<open>Config.load\<close>. The entries of the dictionary are evaluated in the order written,
  the conversions \<^verbatim>\<open>float\<close> and \<^verbatim>\<open>int\<close> among them. The fields of \<^verbatim>\<open>Config\<close> are
  declared with a type only, so the constructor accepts every value of that type.
\<close>

definition Config_load :: "environ \<Rightarrow> py_exc + Config" where
  "Config_load env =
     and_then (getenv_or_cls env ''KAFKA_BOOTSTRAP_SERVERS'' ''kafka_bootstrap_servers'') (\<lambda>servers.
     and_then (getenv_or_cls env ''KAFKA_TOPIC'' ''kafka_topic'') (\<lambda>topic.
     and_then (getenv_or_cls env ''MONGO_DB'' ''mongo_db'') (\<lambda>db.
     and_then (getenv_or_cls env ''MONGO_COLLECTION'' ''mongo_collection'') (\<lambda>coll.
     and_then (and_then (getenv_or_cls env ''HTTP_TIMEOUT_SECONDS'' ''http_timeout_seconds'') py_float) (\<lambda>timeout.
     and_then (and_then (getenv_or_cls env ''MAX_CONCURRENT_FETCHES'' ''max_concurrent_fetches'') py_int) (\<lambda>fetches.
     and_then (getenv_or_cls env ''USER_AGENT'' ''user_agent'') (\<lambda>agent.
     and_then (getenv_or_cls env ''LOG_LEVEL'' ''log_level'') (\<lambda>lv.
       Inr \<lparr> kafka_bootstrap_servers = servers,
             kafka_topic = topic,
             mongo_uri = (if truthy (env ''MONGO_URI'') then env ''MONGO_URI'' else None),
             mongo_db = db,
             mongo_collection = coll,
             http_timeout_seconds = timeout,
             max_concurrent_fetches = fetches,
             user_agent = agent,
             log_level = upper lv \<rparr>))))))))"

text \<open>
  \<^verbatim>\<open>cfg.model_dump()\<close> without \<^verbatim>\<open>mongo_uri\<close>, the value of the \<^verbatim>\<open>config\<close> key of the
  first log call of \<^verbatim>\<open>run\<close>.
\<close>

definition cfg_dump :: "Config \<Rightarrow> (string \<times> pyval) list" where
  "cfg_dump cfg =
     [(''kafka_bootstrap_servers'', PyStr (kafka_bootstrap_servers cfg)),
      (''kafka_topic'', PyStr (kafka_topic cfg)),
      (''mongo_db'', PyStr (mongo_db cfg)),
      (''mongo_collection'', PyStr (mongo_collection cfg)),
      (''http_timeout_seconds'', PyFloat (http_timeout_seconds cfg)),
      (''max_concurrent_fetches'', PyInt (max_concurrent_fetches cfg)),
      (''user_agent'', PyStr (user_agent cfg)),
      (''log_level'', PyStr (log_level cfg))]"

record Settings =
  s_kafka_bootstrap_servers :: string
  s_request_topic :: string
  s_parsed_topic :: string
  s_mongo_uri :: "string option"
  s_mongo_db :: string
  s_mongo_collection :: string
  s_http_timeout_seconds :: rat
  s_user_agent :: string
  s_enable_browser :: bool
  s_log_level :: string

text \<open>
  \<^verbatim>\<open>Settings.load\<close> of \<^verbatim>\<open>src/quorabroker/config.py\<close>, which reads its defaults from
  \<^verbatim>\<open>model_fields\<close>: \<^verbatim>\<open>float(..)\<close> runs while the arguments are evaluated; the
  constructor then validates \<^verbatim>\<open>Field(default=20.0, gt=0, le=300)\<close>.
\<close>

definition Settings_load :: "environ \<Rightarrow> py_exc + Settings" where
  "Settings_load env =
     (case py_float (getenv_default env ''HTTP_TIMEOUT_SECONDS'' ''20.0'') of
        Inl e \<Rightarrow> Inl e
      | Inr timeout \<Rightarrow>
         if \<not> (0 < timeout) then Inl (Exception ''http_timeout_seconds: Input should be greater than 0'')
         else if \<not> (timeout \<le> 300) then
           Inl (Exception ''http_timeout_seconds: Input should be less than or equal to 300'')
         else
           Inr \<lparr> s_kafka_bootstrap_servers = getenv_default env ''KAFKA_BOOTSTRAP_SERVERS'' ''localhost:9092'',
                 s_request_topic = getenv_default env ''REQUEST_TOPIC'' ''quora.fetch.requests'',
                 s_parsed_topic = getenv_default env ''PARSED_TOPIC'' ''quora.fetch.parsed'',
                 s_mongo_uri = (if truthy (env ''MONGO_URI'') then env ''MONGO_URI'' else None),
                 s_mongo_db = getenv_default env ''MONGO_DB'' ''quorabroker'',
                 s_mongo_collection = getenv_default env ''MONGO_COLLECTION'' ''pages'',
                 s_http_timeout_seconds = timeout,
                 s_user_agent = getenv_default env ''USER_AGENT'' ''quorabroker/0.1'',
                 s_enable_browser = (lower (getenv_default env ''ENABLE_BROWSER'' ''false'') = ''true''),
                 s_log_level = upper (getenv_default env ''LOG_LEVEL'' ''INFO'') \<rparr>)"

text \<open>\<^verbatim>\<open>Fetcher.__init__\<close>: the shared HTTP client takes its timeout and its User-Agent from the configuration.\<close>

record Fetcher =
  client_timeout :: rat
  client_user_agent :: string

definition Fetcher_init :: "Config \<Rightarrow> Fetcher" where
  "Fetcher_init cfg = \<lparr> client_timeout = http_timeout_seconds cfg, client_user_agent = user_agent cfg \<rparr>"

subsection \<open>Persistence Stage: \<^verbatim>\<open>MongoStore\<close>\<close>

text \<open>
  \<^verbatim>\<open>self._collection\<close> is \<open>None\<close> when persistence is disabled, and otherwise the handle of
  a collection, which stands here for the documents it holds.
\<close>

record MongoStore =
  collection :: "PageDocument list option"

text \<open>
  What belongs to the driver: the truth value of a collection object, which
  \<^verbatim>\<open>if not self._collection\<close> asks for (the collections of PyMongo and Motor raise
  \<^verbatim>\<open>NotImplementedError\<close> there and ask to be compared with \<open>None\<close>), and
  \<^verbatim>\<open>insert_one\<close>, which returns the collection with the document added, or raises.
\<close>

record mongo_driver =
  collection_bool :: "py_exc + bool"
  insert_one :: "PageDocument list \<Rightarrow> PageDocument \<Rightarrow> py_exc + PageDocument list"

text \<open>\<^verbatim>\<open>MongoStore.__init__\<close>: \<open>motor\<close> says whether \<^verbatim>\<open>AsyncIOMotorClient\<close> was imported.\<close>

definition MongoStore_init :: "logger \<Rightarrow> Config \<Rightarrow> bool \<Rightarrow> PageDocument list \<Rightarrow> MongoStore \<times> log_entry list" where
  "MongoStore_init lgr cfg motor held =
     (if truthy (mongo_uri cfg) \<and> motor then (\<lparr> collection = Some held \<rparr>, [])
      else (\<lparr> collection = None \<rparr>,
            emit lgr WARNING ''Mongo not configured or motor missing; persistence disabled''))"

text \<open>\<^verbatim>\<open>save_page\<close>: \<^verbatim>\<open>not None\<close> is true; on a collection object the driver answers.\<close>

definition save_page :: "mongo_driver \<Rightarrow> MongoStore \<Rightarrow> PageDocument \<Rightarrow> py_exc + MongoStore" where
  "save_page drv st doc =
     (case collection st of
        None \<Rightarrow> Inr st
      | Some c \<Rightarrow>
         (case collection_bool drv of
            Inl e \<Rightarrow> Inl e
          | Inr False \<Rightarrow> Inr st
          | Inr True \<Rightarrow>
             (case insert_one drv c doc of
                Inl e \<Rightarrow> Inl e
              | Inr c' \<Rightarrow> Inr (st\<lparr> collection := Some c' \<rparr>))))"

subsection \<open>Task Source: \<^verbatim>\<open>KafkaConsumerWrapper.get_tasks\<close>\<close>

text \<open>
  What the event loop serves while the generator is suspended in
  \<^verbatim>\<open>await self._consumer.getone()\<close>: a signal, whose handler runs, or the outcome of
  \<^verbatim>\<open>getone\<close>, a message value or an exception.
\<close>

datatype loop_event = Signal string | GetOne "py_exc + 8 word list"

text \<open>
  The state of the generator: the sample URLs still to be yielded when there is no
  consumer, or the events still to come on a live consumer (a finite prefix of them).
\<close>

datatype source = Synthetic "string list" | Live "loop_event list"

datatype gen_result = Yield FetchTask | Return | Raise py_exc | Pending

datatype stage = TaskSource | FetchStage | PersistenceStage | ExtractionStage

text \<open>
  The chronicle of a run: the log lines, and marks for the shutdown event being set, a
  task leaving the generator, \<^verbatim>\<open>save_page\<close> returning, the end of the loop body, and
  the \<^verbatim>\<open>stop\<close>/\<^verbatim>\<open>close\<close> calls of the cleanup.
\<close>

datatype mark = Log log_entry | SignalSet | Pulled FetchTask | Saved PageDocument | Done | Closed stage

text \<open>
  \<^verbatim>\<open>_signal_handler\<close>: the logging call, then \<^verbatim>\<open>shutdown_event.set()\<close>. The handler is a
  callback of the event loop: when the logging call raises, the loop reports the
  exception and goes on, and the event is not set.
\<close>

definition signal_handler :: "logger \<Rightarrow> string \<Rightarrow> mark list" where
  "signal_handler lgr name =
     (case log_call lgr INFO ''signal_received'' [(''signal'', PyStr name)] of
        Inl e \<Rightarrow> []
      | Inr lg \<Rightarrow> map Log lg @ [SignalSet])"

definition sample_urls :: "string list" where
  "sample_urls = [''https://example.org'', ''https://www.python.org'']"

text \<open>
  What belongs to pydantic and json: \<open>HttpUrl u\<close> is \<^verbatim>\<open>str(FetchTask(url=u).url)\<close>, the
  text pydantic gives a valid URL (pydantic 2 writes the path \<^verbatim>\<open>/\<close> where the URL has
  none); \<open>decode\<close> is \<^verbatim>\<open>json.loads(msg.value.decode("utf-8"))\<close> followed by
  \<^verbatim>\<open>FetchTask(**payload)\<close>: the task, or \<^verbatim>\<open>str(exc)\<close> of the exception raised.
\<close>

record codec =
  HttpUrl :: "string \<Rightarrow> string"
  decode :: "8 word list \<Rightarrow> string + FetchTask"

text \<open>What is left to be consumed; it goes down with every iteration.\<close>

fun source_size :: "source \<Rightarrow> nat" where
  "source_size (Synthetic us) = length us"
| "source_size (Live es) = length es"

text \<open>
  One \<^verbatim>\<open>__anext__\<close> of \<^verbatim>\<open>get_tasks\<close>: runs the generator to its next \<^verbatim>\<open>yield\<close>, to its
  return, or to an exception; \<open>Pending\<close> when the events given are used up and
  \<^verbatim>\<open>getone\<close> is still awaited. An exception of the logging call in the handler of a
  malformed message is not a \<^verbatim>\<open>CancelledError\<close>: it leaves the generator. Without a
  consumer the generator sleeps half a second between its last task and its return,
  which yields nothing.
\<close>

function (sequential) get_tasks :: "logger \<Rightarrow> codec \<Rightarrow> source \<Rightarrow> gen_result \<times> source \<times> mark list" where
  "get_tasks lgr cd (Synthetic []) = (Return, Synthetic [], [])"
| "get_tasks lgr cd (Synthetic (u # us)) =
     (Yield \<lparr> url = HttpUrl cd u, id' = None, priority = None \<rparr>, Synthetic us, [])"
| "get_tasks lgr cd (Live []) = (Pending, Live [], [])"
| "get_tasks lgr cd (Live (Signal name # es)) =
     (let (r, src, ms) = get_tasks lgr cd (Live es)
      in (r, src, signal_handler lgr name @ ms))"
| "get_tasks lgr cd (Live (GetOne (Inl e) # es)) =
     (if e = CancelledError then (Return, Live es, []) else (Raise e, Live es, []))"
| "get_tasks lgr cd (Live (GetOne (Inr m) # es)) =
     (case decode cd m of
        Inr task \<Rightarrow> (Yield task, Live es, [])
      | Inl msg \<Rightarrow>
         (case log_call lgr ERROR ''invalid_message'' [(''error'', PyStr msg)] of
            Inl e \<Rightarrow> (Raise e, Live es, [])
          | Inr lg \<Rightarrow>
             (let (r, src, ms) = get_tasks lgr cd (Live es)
              in (r, src, map Log lg @ ms))))"
  by pat_completeness auto
termination
  by (relation "measure (\<lambda>(lgr, cd, src). source_size src)") auto

text \<open>All the tasks the generator yields when it is iterated without a break.\<close>

function tasks :: "logger \<Rightarrow> codec \<Rightarrow> source \<Rightarrow> FetchTask list \<times> gen_result \<times> mark list" where
  "tasks lgr cd src =
     (case get_tasks lgr cd src of
        (Yield task, src', ms) \<Rightarrow> (let (ts, r, ms') = tasks lgr cd src' in (task # ts, r, ms @ ms'))
      | (r, src', ms) \<Rightarrow> ([], r, ms))"
  by pat_completeness auto
termination
proof (relation "measure (\<lambda>(lgr, cd, src). source_size src)")
  show "wf (measure (\<lambda>(lgr, cd, src). source_size src))"
    by simp
next
  fix lgr :: logger and cd :: codec and src src' :: source and x :: gen_result and y task ms
  have shrinks: "get_tasks l d a = (Yield t, b, m) \<Longrightarrow> source_size b < source_size a" for l d a t b m
  proof (induction l d a arbitrary: t b m rule: get_tasks.induct)
    case (4 lgr cd name es)
    then show ?case by (auto split: prod.splits intro: less_SucI)
  next
    case (6 lgr cd m es)
    then show ?case by (auto split: sum.splits prod.splits intro: less_SucI)
  qed (auto split: if_splits)
  assume "(x, y) = get_tasks lgr cd src" "x = Yield task" "(src', ms) = y"
  then have "get_tasks lgr cd src = (Yield task, src', ms)"
    by simp
  then show "((lgr, cd, src'), (lgr, cd, src)) \<in> measure (\<lambda>(lgr, cd, src). source_size src)"
    using shrinks by simp
qed

declare tasks.simps [simp del]

subsection \<open>Pipeline Coordinator: \<^verbatim>\<open>run\<close> and its \<^verbatim>\<open>worker\<close>\<close>

text \<open>\<^verbatim>\<open>sub in s\<close> on strings.\<close>

fun contains :: "string \<Rightarrow> string \<Rightarrow> bool" where
  "contains sub [] = (sub = [])"
| "contains sub (c # cs) = (take (length sub) (c # cs) = sub \<or> contains sub cs)"

text \<open>
  What the processing of one task meets: the world of its \<^verbatim>\<open>fetch\<close>, the world of its
  browser extraction, and the signal, if any, whose handler runs while the task is
  suspended in \<^verbatim>\<open>await self._client.get\<close>.
\<close>

record task_world =
  fetching :: fetch_world
  browsing :: browser_world
  signal_during :: "string option"

text \<open>The objects \<^verbatim>\<open>run\<close> builds, which its \<^verbatim>\<open>worker\<close> uses.\<close>

record pipeline =
  logger :: logger
  fetcher :: Fetcher
  browser_worker :: bool
  pydantic :: codec
  driver :: mongo_driver

text \<open>
  The \<^verbatim>\<open>if browser_worker and page_doc.get("html") and "quora.com" in page_doc["url"]\<close>
  block. Its handler logs an exception of \<^verbatim>\<open>extract\<close> and goes on with the document as
  fetched, unless the logging call raises.
\<close>

definition extraction :: "pipeline \<Rightarrow> browser_world \<Rightarrow> PageDocument \<Rightarrow> log_entry list \<times> (py_exc + PageDocument)" where
  "extraction p bw page_doc =
     (if browser_worker p \<and> truthy (html page_doc) \<and> contains ''quora.com'' (doc_url page_doc)
      then (case BrowserWorker_extract (logger p) bw (doc_url page_doc) of
              (lg, Inr (q, a)) \<Rightarrow> (lg, Inr (page_doc\<lparr> question := q, answer := a \<rparr>))
            | (lg, Inl (Exception msg)) \<Rightarrow>
                (case log_call (logger p) WARNING ''browser_extract_failed'' [(''error'', PyStr msg)] of
                   Inl e \<Rightarrow> (lg, Inl e)
                 | Inr lg2 \<Rightarrow> (lg @ lg2, Inr page_doc))
            | (lg, Inl e) \<Rightarrow> (lg, Inl e))
      else ([], Inr page_doc))"

text \<open>
  The body of the \<^verbatim>\<open>async for\<close> loop, up to the test of the shutdown event: \<^verbatim>\<open>fetch\<close>,
  the extraction block, \<^verbatim>\<open>save_page\<close>, and the \<^verbatim>\<open>task_processed\<close> logging call.
\<close>

definition process_task :: "pipeline \<Rightarrow> task_world \<Rightarrow> MongoStore \<Rightarrow> FetchTask \<Rightarrow> mark list \<times> (py_exc + MongoStore)" where
  "process_task p tw st task =
     (let sig = (case signal_during tw of
                   None \<Rightarrow> []
                 | Some name \<Rightarrow> signal_handler (logger p) name)
      in case fetch (logger p) (fetching tw) task of
           Inl e \<Rightarrow> (sig, Inl e)
         | Inr (page_doc, lg) \<Rightarrow>
            (case extraction p (browsing tw) page_doc of
               (lg2, Inl e) \<Rightarrow> (sig @ map Log (lg @ lg2), Inl e)
             | (lg2, Inr doc) \<Rightarrow>
                (case save_page (driver p) st doc of
                   Inl e \<Rightarrow> (sig @ map Log (lg @ lg2), Inl e)
                 | Inr st' \<Rightarrow>
                    (case log_call (logger p) INFO ''task_processed''
                            [(''url'', PyStr (doc_url doc)),
                             (''status_code'', case status_code doc of None \<Rightarrow> PyNone | Some c \<Rightarrow> PyInt c)] of
                       Inl e \<Rightarrow> (sig @ map Log (lg @ lg2) @ [Saved doc], Inl e)
                     | Inr lg3 \<Rightarrow>
                        (sig @ map Log (lg @ lg2) @ [Saved doc] @ map Log lg3 @ [Done], Inr st')))))"

record wstate =
  store :: MongoStore
  trace :: "mark list"
  processed :: nat

text \<open>
  How the loop of \<^verbatim>\<open>worker\<close> ended: the generator returned, the \<^verbatim>\<open>break\<close> after the
  shutdown event, an exception, or still waiting for a message.
\<close>

datatype wend = Exhausted | Broke | Raised py_exc | Waiting

text \<open>
  \<^verbatim>\<open>worker\<close>: one iteration pulls a task, processes it, and tests
  \<^verbatim>\<open>shutdown_event.is_set()\<close>, which holds when a handler has set the event before.
  The \<open>n\<close>-th task pulled meets the world \<open>tws n\<close>.
\<close>

function worker :: "pipeline \<Rightarrow> (nat \<Rightarrow> task_world) \<Rightarrow> source \<Rightarrow> wstate \<Rightarrow> wend \<times> wstate" where
  "worker p tws src s =
     (case get_tasks (logger p) (pydantic p) src of
        (Return, src', ms) \<Rightarrow> (Exhausted, s\<lparr> trace := trace s @ ms \<rparr>)
      | (Pending, src', ms) \<Rightarrow> (Waiting, s\<lparr> trace := trace s @ ms \<rparr>)
      | (Raise e, src', ms) \<Rightarrow> (Raised e, s\<lparr> trace := trace s @ ms \<rparr>)
      | (Yield task, src', ms) \<Rightarrow>
         (case process_task p (tws (processed s)) (store s) task of
            (ms2, Inl e) \<Rightarrow> (Raised e, s\<lparr> trace := trace s @ ms @ [Pulled task] @ ms2 \<rparr>)
          | (ms2, Inr st') \<Rightarrow>
             (let s' = \<lparr> store = st', trace = trace s @ ms @ [Pulled task] @ ms2,
                        processed = Suc (processed s) \<rparr>
              in if SignalSet \<in> set (trace s') then (Broke, s') else worker p tws src' s')))"
  by pat_completeness auto
termination
proof (relation "measure (\<lambda>(p, tws, src, s). source_size src)")
  show "wf (measure (\<lambda>(p, tws, src, s). source_size src))"
    by simp
next
  fix p :: pipeline and tws :: "nat \<Rightarrow> task_world" and src src' :: source and s s' :: wstate
    and x :: gen_result and y task ms
  have shrinks: "get_tasks l d a = (Yield t, b, m) \<Longrightarrow> source_size b < source_size a" for l d a t b m
  proof (induction l d a arbitrary: t b m rule: get_tasks.induct)
    case (4 lgr cd name es)
    then show ?case by (auto split: prod.splits intro: less_SucI)
  next
    case (6 lgr cd m es)
    then show ?case by (auto split: sum.splits prod.splits intro: less_SucI)
  qed (auto split: if_splits)
  assume "(x, y) = get_tasks (logger p) (pydantic p) src" "x = Yield task" "(src', ms) = y"
  then have "get_tasks (logger p) (pydantic p) src = (Yield task, src', ms)"
    by simp
  then show "((p, tws, src', s'), (p, tws, src, s)) \<in> measure (\<lambda>(p, tws, src, s). source_size src)"
    using shrinks by simp
qed

declare worker.simps [simp del]

text \<open>
  What a run meets: the environment variables, which optional packages were imported
  (\<^verbatim>\<open>structlog\<close>, \<^verbatim>\<open>aiokafka\<close>, \<^verbatim>\<open>motor\<close>, and \<^verbatim>\<open>webdriver\<close> of selenium), the exception
  of \<^verbatim>\<open>BrowserWorker(logger)\<close> if starting Chrome raises, the outcome of
  \<^verbatim>\<open>await self._consumer.start()\<close>, the documents the collection holds, the events of
  the consumer, the world of every task, and what pydantic, json and the store driver do.
\<close>

record run_world =
  environ :: environ
  structlog :: bool
  aiokafka :: bool
  consumer_start :: "py_exc option"
  motor :: bool
  held :: "PageDocument list"
  webdriver :: bool
  chrome_start :: "py_exc option"
  events :: "loop_event list"
  task_worlds :: "nat \<Rightarrow> task_world"
  json_pydantic :: codec
  mongo :: mongo_driver

datatype run_result = Exit int | Propagates py_exc | Running

text \<open>
  The \<^verbatim>\<open>finally\<close> block: \<^verbatim>\<open>consumer.stop()\<close> (which logs when there is a consumer),
  \<^verbatim>\<open>fetcher.close()\<close>, \<^verbatim>\<open>store.close()\<close>, \<^verbatim>\<open>browser_worker.close()\<close> when there is a
  browser worker, and the last logging call. None of its logging calls has a keyword
  argument.
\<close>

definition cleanup :: "logger \<Rightarrow> bool \<Rightarrow> bool \<Rightarrow> mark list" where
  "cleanup lgr consumer browser =
     [Closed TaskSource] @ (if consumer then map Log (emit lgr INFO ''kafka_consumer_stopped'') else []) @
     [Closed FetchStage, Closed PersistenceStage] @
     (if browser then [Closed ExtractionStage] else []) @
     map Log (emit lgr INFO ''service_stopped'')"

text \<open>\<^verbatim>\<open>try: await worker() finally: ...\<close> and \<^verbatim>\<open>return 0\<close>.\<close>

definition run_worker :: "pipeline \<Rightarrow> (nat \<Rightarrow> task_world) \<Rightarrow> source \<Rightarrow> bool \<Rightarrow> mark list \<Rightarrow> MongoStore \<Rightarrow> mark list \<times> run_result" where
  "run_worker p tws src consumer tr st =
     (case worker p tws src \<lparr> store = st, trace = tr, processed = 0 \<rparr> of
        (Waiting, s) \<Rightarrow> (trace s, Running)
      | (Raised e, s) \<Rightarrow> (trace s @ cleanup (logger p) consumer (browser_worker p), Propagates e)
      | (w, s) \<Rightarrow> (trace s @ cleanup (logger p) consumer (browser_worker p), Exit 0))"

text \<open>
  \<^verbatim>\<open>run\<close> after \<^verbatim>\<open>Config.load()\<close> has returned \<open>cfg\<close>: \<^verbatim>\<open>configure_logging\<close>, the
  \<^verbatim>\<open>service_starting\<close> logging call with the configuration dump, the browser worker
  when selenium was imported, the fetcher, the store, and \<^verbatim>\<open>consumer.start()\<close>, which
  logs a warning without aiokafka and \<^verbatim>\<open>kafka_consumer_started\<close> with its topic
  otherwise. An exception of any of these leaves \<^verbatim>\<open>run\<close> before the \<^verbatim>\<open>try\<close> is
  entered.
\<close>

definition run_with :: "Config \<Rightarrow> run_world \<Rightarrow> mark list \<times> run_result" where
  "run_with cfg rw =
     (case configure_logging (structlog rw) (log_level cfg) of
        Inl e \<Rightarrow> ([], Propagates e)
      | Inr lgr \<Rightarrow>
         (case log_call lgr INFO ''service_starting'' [(''config'', PyDict (cfg_dump cfg))] of
            Inl e \<Rightarrow> ([], Propagates e)
          | Inr starting \<Rightarrow>
             (case (if webdriver rw then chrome_start rw else None) of
                Some e \<Rightarrow> (map Log starting, Propagates e)
              | None \<Rightarrow>
                 (let (st, lg) = MongoStore_init lgr cfg (motor rw) (held rw);
                      p = \<lparr> logger = lgr, fetcher = Fetcher_init cfg, browser_worker = webdriver rw,
                            pydantic = json_pydantic rw, driver = mongo rw \<rparr>;
                      tr = map Log (starting @ lg)
                  in if \<not> aiokafka rw then
                       run_worker p (task_worlds rw) (Synthetic sample_urls) False
                         (tr @ map Log (emit lgr WARNING ''aiokafka not installed; using synthetic tasks'')) st
                     else case consumer_start rw of
                            Some e \<Rightarrow> (tr, Propagates e)
                          | None \<Rightarrow>
                             (case log_call lgr INFO ''kafka_consumer_started''
                                     [(''topic'', PyStr (kafka_topic cfg))] of
                                Inl e \<Rightarrow> (tr, Propagates e)
                              | Inr started \<Rightarrow>
                                  run_worker p (task_worlds rw) (Live (events rw)) True
                                    (tr @ map Log started) st)))))"

text \<open>\<^verbatim>\<open>run\<close>: an exception of \<^verbatim>\<open>Config.load()\<close> leaves before anything is built.\<close>

definition run :: "run_world \<Rightarrow> mark list \<times> run_result" where
  "run rw =
     (case Config_load (environ rw) of
        Inl e \<Rightarrow> ([], Propagates e)
      | Inr cfg \<Rightarrow> run_with cfg rw)"

text \<open>
  The tasks inside the loop body along a chronicle: a task enters at \<open>Pulled\<close> and leaves
  at \<open>Done\<close>.
\<close>

fun occupancy :: "mark list \<Rightarrow> int" where
  "occupancy [] = 0"
| "occupancy (Pulled task # ms) = occupancy ms + 1"
| "occupancy (Done # ms) = occupancy ms - 1"
| "occupancy (m # ms) = occupancy ms"

text \<open>The marks that neither move a task nor close a stage.\<close>

fun still :: "mark \<Rightarrow> bool" where
  "still (Log l) = True"
| "still SignalSet = True"
| "still (Saved doc) = True"
| "still m = False"

text \<open>
  The tasks pulled from the generator along a chronicle, and those pulled after the
  shutdown event was first set.
\<close>

fun pulled :: "mark list \<Rightarrow> FetchTask list" where
  "pulled [] = []"
| "pulled (Pulled task # ms) = task # pulled ms"
| "pulled (m # ms) = pulled ms"

definition pulled_after_signal :: "mark list \<Rightarrow> FetchTask list" where
  "pulled_after_signal tr = pulled (dropWhile (\<lambda>m. m \<noteq> SignalSet) tr)"

text \<open>The documents for which \<^verbatim>\<open>save_page\<close> returned, and the stages closed, in order.\<close>

fun saved :: "mark list \<Rightarrow> PageDocument list" where
  "saved [] = []"
| "saved (Saved doc # ms) = doc # saved ms"
| "saved (m # ms) = saved ms"

fun closed :: "mark list \<Rightarrow> stage list" where
  "closed [] = []"
| "closed (Closed st # ms) = st # closed ms"
| "closed (m # ms) = closed ms"

subsection \<open>parser.py: \<^verbatim>\<open>extract_question_answer\<close>\<close>

text \<open>
  What belongs to BeautifulSoup: the constructor \<^verbatim>\<open>BeautifulSoup(markup, features)\<close>,
  which returns a tree or raises when the parser rejects the markup,
  \<^verbatim>\<open>soup.select_one(selector)\<close>, which returns the first matching tag or \<open>None\<close>, and
  \<^verbatim>\<open>tag.get_text(separator, strip=True)\<close>.
\<close>

record ('soup, 'tag) bs4 =
  BeautifulSoup :: "string \<Rightarrow> string \<Rightarrow> py_exc + 'soup"
  select_one :: "'soup \<Rightarrow> string \<Rightarrow> 'tag option"
  get_text :: "'tag \<Rightarrow> string \<Rightarrow> string"

definition ANSWER_SELECTOR :: string where
  "ANSWER_SELECTOR = ''p.q-text.qu-display--block.qu-wordBreak--break-word.qu-textAlign--start''"

text \<open>
  \<^verbatim>\<open>extract_question_answer\<close>. A tag object is truthy, so \<^verbatim>\<open>if q_el\<close> asks whether a tag
  was found. The dictionary returned is the pair of its \<^verbatim>\<open>question\<close> and \<^verbatim>\<open>answer\<close>
  values; the separator of the first \<^verbatim>\<open>get_text\<close> is the default, the empty string.
\<close>

definition extract_question_answer :: "('soup, 'tag) bs4 \<Rightarrow> string \<Rightarrow> py_exc + (string option \<times> string option)" where
  "extract_question_answer lib markup =
     (case BeautifulSoup lib markup ''html.parser'' of
        Inl e \<Rightarrow> Inl e
      | Inr soup \<Rightarrow>
         (let q_el = select_one lib soup QUESTION_SELECTOR;
              a_el = select_one lib soup ANSWER_SELECTOR;
              question = (case q_el of Some el \<Rightarrow> Some (get_text lib el []) | None \<Rightarrow> None);
              answer = (case a_el of Some el \<Rightarrow> Some (get_text lib el [CHR 0x0A]) | None \<Rightarrow> None)
          in Inr (question, answer)))"

text \<open>
  The library on the documents of the scenario: start tags with double-quoted attribute
  values, end tags and character data (no comments, no character references, no void or
  self-closing tags, no script). On these \<^verbatim>\<open>html.parser\<close> builds the tree below,
  \<^verbatim>\<open>select_one\<close> resolves a selector of the form \<^verbatim>\<open>tag.class1.class2\<close> as below, and
  \<^verbatim>\<open>get_text\<close> joins the stripped strings that are not empty.
\<close>

datatype node = Element string "(string \<times> string) list" "node list" | Text string

datatype token = StartTag string "(string \<times> string) list" | EndTag string | Data string

fun split_by :: "(char \<Rightarrow> bool) \<Rightarrow> string \<Rightarrow> string list" where
  "split_by P [] = [[]]"
| "split_by P (x # xs) =
     (if P x then [] # split_by P xs
      else case split_by P xs of
             y # ys \<Rightarrow> (x # y) # ys
           | [] \<Rightarrow> [[x]])"

definition split_on :: "char \<Rightarrow> string \<Rightarrow> string list" where
  "split_on c s = split_by (\<lambda>x. x = c) s"

text \<open>The words of a string: split at whitespace, as the class attribute is.\<close>

definition words :: "string \<Rightarrow> string list" where
  "words s = filter (\<lambda>w. w \<noteq> []) (split_by is_space s)"

text \<open>
  The attributes of a start tag: the text after the tag name, cut at the double quotes,
  is \<^verbatim>\<open>name=\<close>, value, \<^verbatim>\<open>name=\<close>, value, and so on.
\<close>

fun attrs_of :: "string list \<Rightarrow> (string \<times> string) list" where
  "attrs_of (k # v # rest) =
     (lower (takeWhile (\<lambda>c. c \<noteq> CHR ''='') (strip k)), v) # attrs_of rest"
| "attrs_of rest = []"

definition tag_token :: "string \<Rightarrow> token" where
  "tag_token t =
     (case t of
        c # r \<Rightarrow>
          if c = CHR ''/'' then EndTag (lower (strip r))
          else StartTag (lower (takeWhile (\<lambda>c. \<not> is_space c) t))
                        (attrs_of (split_on CHR 0x22 (dropWhile (\<lambda>c. \<not> is_space c) t)))
      | [] \<Rightarrow> Data ''<>'')"

definition data_token :: "string \<Rightarrow> token list" where
  "data_token d = (if d = [] then [] else [Data d])"

text \<open>A piece between two \<^verbatim>\<open><\<close>: the tag up to \<^verbatim>\<open>>\<close>, then character data.\<close>

definition piece_tokens :: "string \<Rightarrow> token list" where
  "piece_tokens pc =
     (let t = takeWhile (\<lambda>c. c \<noteq> CHR ''>'') pc
      in if length t < length pc then tag_token t # data_token (drop (length t + 1) pc)
         else [Data (CHR ''<'' # pc)])"

definition tokenize :: "string \<Rightarrow> token list" where
  "tokenize s =
     (case split_on CHR ''<'' s of
        first # rest \<Rightarrow> data_token first @ concat (map piece_tokens rest)
      | [] \<Rightarrow> [])"

text \<open>
  The tree builder keeps the open elements on a stack, innermost first, each with its
  children so far in reverse; the document is the bottom frame.
\<close>

type_synonym frame = "string \<times> (string \<times> string) list \<times> node list"

fun add_child :: "node \<Rightarrow> frame list \<Rightarrow> frame list" where
  "add_child n ((name, a, ch) # rest) = (name, a, n # ch) # rest"
| "add_child n [] = []"

fun close_top :: "frame list \<Rightarrow> frame list" where
  "close_top ((name, a, ch) # parent # rest) = add_child (Element name a (rev ch)) (parent # rest)"
| "close_top fs = fs"

fun pop_to :: "string \<Rightarrow> frame list \<Rightarrow> frame list" where
  "pop_to t ((name, a, ch) # parent # rest) =
     (if name = t then close_top ((name, a, ch) # parent # rest)
      else pop_to t (add_child (Element name a (rev ch)) (parent # rest)))"
| "pop_to t fs = fs"

fun build :: "frame list \<Rightarrow> token list \<Rightarrow> frame list" where
  "build fs [] = fs"
| "build fs (StartTag t a # ts) = build ((t, a, []) # fs) ts"
| "build fs (Data d # ts) = build (add_child (Text d) fs) ts"
| "build fs (EndTag t # ts) =
     build (if t \<in> set (map fst (butlast fs)) then pop_to t fs else fs) ts"

fun close_all :: "frame list \<Rightarrow> node list" where
  "close_all [] = []"
| "close_all [(name, a, ch)] = rev ch"
| "close_all ((name, a, ch) # parent # rest) =
     close_all (add_child (Element name a (rev ch)) (parent # rest))"

definition html_parser :: "string \<Rightarrow> node list" where
  "html_parser markup = close_all (build [(''[document]'', [], [])] (tokenize markup))"

text \<open>The elements of a tree and its text strings, in document order.\<close>

fun elements :: "node \<Rightarrow> node list" where
  "elements (Text s) = []"
| "elements (Element t a ch) = Element t a ch # concat (map elements ch)"

fun strings :: "node \<Rightarrow> string list" where
  "strings (Text s) = [s]"
| "strings (Element t a ch) = concat (map strings ch)"

fun matches :: "string \<Rightarrow> node \<Rightarrow> bool" where
  "matches selector (Text s) = False"
| "matches selector (Element t a ch) =
     (case split_on CHR ''.'' selector of
        tag # classes \<Rightarrow>
          t = tag \<and> list_all (\<lambda>c. c \<in> set (case map_of a ''class'' of None \<Rightarrow> [] | Some v \<Rightarrow> words v)) classes
      | [] \<Rightarrow> False)"

definition css_select_one :: "node list \<Rightarrow> string \<Rightarrow> node option" where
  "css_select_one soup selector = find (matches selector) (concat (map elements soup))"

fun join :: "string \<Rightarrow> string list \<Rightarrow> string" where
  "join sep [] = []"
| "join sep [x] = x"
| "join sep (x # y # ys) = x @ sep @ join sep (y # ys)"

definition tag_get_text :: "node \<Rightarrow> string \<Rightarrow> string" where
  "tag_get_text el separator = join separator (filter (\<lambda>t. t \<noteq> []) (map strip (strings el)))"

definition bs4_fragment :: "(node list, node) bs4" where
  "bs4_fragment = \<lparr> BeautifulSoup = (\<lambda>markup features. Inr (html_parser markup)),
                     select_one = css_select_one,
                     get_text = tag_get_text \<rparr>"

text \<open>The HTML of the scenario.\<close>

definition scenario_html :: string where
  \<open>scenario_html = ''<div class="puppeteer_test_question_title">What is Python?</div><p class="q-text qu-display--block qu-wordBreak--break-word qu-textAlign--start">Python is a programming language.</p>''\<close>

subsection \<open>The invariant of page documents, and concrete inputs\<close>

text \<open>
  \<^verbatim>\<open>error\<close> set, \<^verbatim>\<open>status_code\<close> absent and \<^verbatim>\<open>html\<close> absent, each meaning a comparison
  with \<open>None\<close>, are equivalent two by two.
\<close>

definition record_invariant :: "PageDocument \<Rightarrow> bool" where
  "record_invariant doc =
     (((error doc \<noteq> None) = (status_code doc = None)) \<and>
      ((status_code doc = None) = (html doc = None)) \<and>
      ((error doc \<noteq> None) = (html doc = None)))"

text \<open>A world where the target answers 200 after 125 ms, and one where the GET fails.\<close>

definition world_ok :: fetch_world where
  "world_ok = \<lparr> perf_started = 10, perf_finished = 10 + 1 / 8, gmtime_now = ''2024-01-01T00:00:00Z'',
                urandom8 = 0x0123456789abcdef,
                client_get = (\<lambda>u. Inr \<lparr> resp_status_code = 200, resp_content = [0x4f, 0x4b], resp_text = ''OK'' \<rparr>) \<rparr>"

definition world_down :: fetch_world where
  "world_down = world_ok \<lparr> client_get := (\<lambda>u. Inl (Exception ''[Errno -2] Name or service not known'')) \<rparr>"

text \<open>
  A chronicle is orderly when at every point at most one task is inside the loop body,
  at most one task is pulled after the shutdown event was set, and such a task is
  pulled only when no task was inside the loop body at the time the event was set.
\<close>

definition orderly :: "mark list \<Rightarrow> bool" where
  "orderly tr =
     ((\<forall>n. occupancy (take n tr) \<in> {0, 1}) \<and>
      length (pulled_after_signal tr) \<le> 1 \<and>
      (pulled_after_signal tr \<noteq> [] \<longrightarrow> occupancy (takeWhile (\<lambda>m. m \<noteq> SignalSet) tr) = 0))"

text \<open>
  An environment that sets every variable \<^verbatim>\<open>Config.load\<close> reads but \<^verbatim>\<open>MONGO_URI\<close>, so
  that no class attribute is read, with the log level \<^verbatim>\<open>WARNING\<close>.
\<close>

definition env_all :: "string \<Rightarrow> string \<Rightarrow> environ" where
  "env_all timeout fetches =
     map_of [(''KAFKA_BOOTSTRAP_SERVERS'', ''localhost:9092''), (''KAFKA_TOPIC'', ''quora.fetch.requests''),
             (''MONGO_DB'', ''quorabroker''), (''MONGO_COLLECTION'', ''pages''),
             (''HTTP_TIMEOUT_SECONDS'', timeout), (''MAX_CONCURRENT_FETCHES'', fetches),
             (''USER_AGENT'', ''quorabroker/0.1''), (''LOG_LEVEL'', ''WARNING'')]"

text \<open>The configuration that \<^verbatim>\<open>Config.load\<close> builds from \<open>env_all ''15'' ''0''\<close>.\<close>

definition cfg_zero :: Config where
  "cfg_zero = \<lparr> kafka_bootstrap_servers = ''localhost:9092'', kafka_topic = ''quora.fetch.requests'',
                 mongo_uri = None, mongo_db = ''quorabroker'', mongo_collection = ''pages'',
                 http_timeout_seconds = 15, max_concurrent_fetches = 0,
                 user_agent = ''quorabroker/0.1'', log_level = ''WARNING'' \<rparr>"

text \<open>A task whose target answers, with no signal while it is processed.\<close>

definition task_world_ok :: task_world where
  "task_world_ok = \<lparr> fetching = world_ok,
                      browsing = \<lparr> ext_started = 0, ext_finished = 0,
                                   driver_get = (\<lambda>u. Inl (Exception ''no browser'')) \<rparr>,
                      signal_during = None \<rparr>"

text \<open>
  A message whose payload is a valid task, a message cut short, and what pydantic 2 and
  json do on the inputs used here: the sample URLs get the path \<^verbatim>\<open>/\<close>, the valid
  payload is read, and the other payload is rejected by \<^verbatim>\<open>json.loads\<close>.
\<close>

definition task_quora :: FetchTask where
  "task_quora = \<lparr> url = ''https://www.quora.com/What-is-Python'', id' = Some ''q1'', priority = None \<rparr>"

definition utf8 :: "string \<Rightarrow> 8 word list" where
  "utf8 s = map of_char s"

definition msg_quora :: "8 word list" where
  \<open>msg_quora = utf8 ''{"url": "https://www.quora.com/What-is-Python", "id": "q1"}''\<close>

definition msg_broken :: "8 word list" where
  \<open>msg_broken = utf8 ''{"url": ''\<close>

definition loads :: "8 word list \<Rightarrow> string + FetchTask" where
  "loads m = (if m = msg_quora then Inr task_quora
              else Inl ''Expecting value: line 1 column 9 (char 8)'')"

definition pydantic_v2 :: codec where
  "pydantic_v2 = \<lparr> HttpUrl = (\<lambda>u. if u \<in> set sample_urls then u @ ''/'' else u), decode = loads \<rparr>"

text \<open>The store driver of Motor: a collection has no truth value.\<close>

definition motor_driver :: mongo_driver where
  "motor_driver =
     \<lparr> collection_bool = Inl (Exception ''Collection objects do not implement truth value testing or bool(). Please compare with None instead: collection is not None''),
       insert_one = (\<lambda>c d. Inr (c @ [d])) \<rparr>"

text \<open>
  A run without structlog, aiokafka, motor and selenium, every variable set, with
  \<^verbatim>\<open>MAX_CONCURRENT_FETCHES=1\<close>: the two synthetic tasks, both targets answering.
\<close>

definition rw_degraded :: run_world where
  "rw_degraded = \<lparr> environ = env_all ''15'' ''1'', structlog = False, aiokafka = False,
                   consumer_start = None, motor = False, held = [], webdriver = False,
                   chrome_start = None, events = [], task_worlds = (\<lambda>n. task_world_ok),
                   json_pydantic = pydantic_v2, mongo = motor_driver \<rparr>"

text \<open>The same run with both targets unreachable.\<close>

definition rw_down :: run_world where
  "rw_down = rw_degraded \<lparr> task_worlds := (\<lambda>n. task_world_ok \<lparr> fetching := world_down \<rparr>) \<rparr>"

text \<open>
  A run on a live consumer where SIGTERM arrives while the worker waits for its first
  message, and a valid message follows.
\<close>

definition rw_signal :: run_world where
  "rw_signal = rw_degraded \<lparr> environ := env_all ''15'' ''10'', aiokafka := True,
                 events := [Signal ''SIGTERM'', GetOne (Inr msg_quora)] \<rparr>"

text \<open>
  A run on a live consumer where SIGINT arrives while the first task is processed, a
  second message being ready.
\<close>

definition rw_busy :: run_world where
  "rw_busy = rw_degraded \<lparr> environ := env_all ''15'' ''10'', aiokafka := True,
                events := [GetOne (Inr msg_quora), GetOne (Inr msg_quora)],
                task_worlds := (\<lambda>n. task_world_ok \<lparr> signal_during := Some ''SIGINT'' \<rparr>) \<rparr>"

text \<open>
  A run on a live consumer that delivers a malformed message, then a valid one.
\<close>

definition rw_mixed :: run_world where
  "rw_mixed = rw_degraded \<lparr> environ := env_all ''15'' ''10'', aiokafka := True,
                 events := [GetOne (Inr msg_broken), GetOne (Inr msg_quora)] \<rparr>"

text \<open>
  What the chronicle and the result of a run are shown to satisfy: the chronicle is
  orderly; \<^verbatim>\<open>save_page\<close> has returned for every task pulled, in order, except for the
  last one when the run ends with an exception; and the stages are closed in the order
  of the \<^verbatim>\<open>finally\<close> block or not at all, and closed when the run exits with code 0.
\<close>

definition run_shape :: "bool \<Rightarrow> mark list \<times> run_result \<Rightarrow> bool" where
  "run_shape browser x =
     (orderly (fst x) \<and>
      (map doc_url (saved (fst x)) = map url (pulled (fst x)) \<or>
       (\<exists>e. snd x = Propagates e) \<and> map doc_url (saved (fst x)) = butlast (map url (pulled (fst x)))) \<and>
      (closed (fst x) = [] \<or>
       closed (fst x) = [TaskSource, FetchStage, PersistenceStage] @ (if browser then [ExtractionStage] else [])) \<and>
      (snd x = Exit 0 \<longrightarrow>
       closed (fst x) = [TaskSource, FetchStage, PersistenceStage] @ (if browser then [ExtractionStage] else [])))"

section \<open>Properties\<close>

subsection \<open>Helper lemmas\<close>

lemma nibble_less: "nibble w i < 16"
proof -
  have "drop_bit (4 * i) w AND 15 \<le> (15 :: 64 word)"
    by (rule word_and_le1)
  then have "unat (drop_bit (4 * i) w AND 15) \<le> unat (15 :: 64 word)"
    by (simp add: word_le_nat_alt)
  then show ?thesis by (simp add: nibble_def)
qed

lemma hex_digit_in: "n < 16 \<Longrightarrow> hex_digit n \<in> set ''0123456789abcdef''"
  unfolding hex_digit_def by (rule nth_mem) simp

lemma hex_digit_inj: "n < 16 \<Longrightarrow> m < 16 \<Longrightarrow> hex_digit n = hex_digit m \<Longrightarrow> n = m"
proof -
  assume n: "n < 16" and m: "m < 16" and e: "hex_digit n = hex_digit m"
  have d: "distinct ''0123456789abcdef''"
    by simp
  have "n < length ''0123456789abcdef''" "m < length ''0123456789abcdef''"
    using n m by simp_all
  with d e show ?thesis
    unfolding hex_digit_def by (simp only: nth_eq_iff_index_eq)
qed

lemma length_hex: "length (hex w) = 16"
  by (simp add: hex_def)

lemma hex_chars: "c \<in> set (hex w) \<Longrightarrow> c \<in> set ''0123456789abcdef''"
  unfolding hex_def using hex_digit_in [OF nibble_less] by auto

lemma hex_example: "hex 0x0123456789abcdef = ''0123456789abcdef''"
  by (simp add: hex_def nibble_def hex_digit_def upt_rec drop_bit_eq_div)

lemma hex_example': "hex 0xfedcba9876543210 = ''fedcba9876543210''"
  by (simp add: hex_def nibble_def hex_digit_def upt_rec drop_bit_eq_div)

lemma nibble_bit: "j < 4 \<Longrightarrow> bit (nibble w i) j = bit w (4 * i + j)"
proof -
  assume j: "j < 4"
  have m: "(15 :: 64 word) = mask 4"
    by (simp add: mask_eq_exp_minus_1)
  have "bit (nibble w i) j = bit (drop_bit (4 * i) w AND mask 4) j"
    unfolding nibble_def m by (simp add: bit_unsigned_iff)
  also have "\<dots> = bit w (4 * i + j)"
    using j by (simp add: bit_and_iff bit_drop_bit_eq bit_mask_iff)
  finally show ?thesis .
qed

lemma hex_inj: "hex w = hex w' \<Longrightarrow> w = w'"
proof -
  assume e: "hex w = hex w'"
  have n: "nibble w i = nibble w' i" if "i < 16" for i
  proof -
    from e have "\<forall>i \<in> set (rev [0..<16]). hex_digit (nibble w i) = hex_digit (nibble w' i)"
      unfolding hex_def by (simp only: map_eq_conv)
    with that have "hex_digit (nibble w i) = hex_digit (nibble w' i)"
      by simp
    then show ?thesis
      using hex_digit_inj [OF nibble_less nibble_less] by blast
  qed
  show ?thesis
  proof (rule bit_word_eqI)
    fix k
    assume "k < LENGTH(64)"
    then have k: "k div 4 < 16" "k mod 4 < 4" "4 * (k div 4) + k mod 4 = k"
      by simp_all
    have "bit w k = bit (nibble w (k div 4)) (k mod 4)"
      using nibble_bit [OF k(2), of w "k div 4"] k(3) by simp
    also have "\<dots> = bit (nibble w' (k div 4)) (k mod 4)"
      using n [OF k(1)] by simp
    also have "\<dots> = bit w' k"
      using nibble_bit [OF k(2), of w' "k div 4"] k(3) by simp
    finally show "bit w k = bit w' k" .
  qed
qed

lemma fetch_doc_id:
  "fetch lgr w task = Inr (doc, lg) \<Longrightarrow> doc_id doc = or_else (id' task) (hex (urandom8 w))"
  by (auto simp: fetch_def Let_def split: sum.splits py_exc.splits)

lemma double_125: "double 125 = 125"
  by (simp add: double_def ilog2_def bit_length.simps pow2_def round_even_def)

lemma double_eighth: "double (1 / 8) = 1 / 8"
  by (simp add: double_def ilog2_def bit_length.simps pow2_def round_even_def)

lemma latency_example: "round2 (elapsed_ms 10 (10 + 1 / 8)) = 125"
  by (simp add: elapsed_ms_def round2_def double_eighth double_125 round_even_def)

lemma log_call_keyed:
  "lgr \<le> levelno lv \<Longrightarrow>
     log_call lgr lv event ((k, v) # kw) =
       Inl (Exception (''Logger._log() got an unexpected keyword argument '' @ quoted k))"
  by (simp add: log_call_def)

lemma log_call_disabled: "levelno lv < lgr \<Longrightarrow> log_call lgr lv event kw = Inr []"
  by (simp add: log_call_def)

lemma log_call_unkeyed: "log_call lgr lv event kw = Inr lg \<Longrightarrow> lg = [] \<or> lg = [(lv, event, [])]"
  by (auto simp: log_call_def split: if_splits list.splits)

subsection \<open>Fetch Stage\<close>

lemma py_int_1: "py_int ''1'' = Inr 1"
  by (simp add: py_int_def strip_def is_space_def split_sign_def digit_val_def)

lemma py_int_10: "py_int ''10'' = Inr 10"
  by (simp add: py_int_def strip_def is_space_def split_sign_def digit_val_def)

lemma double_15: "double 15 = 15"
  by (simp add: double_def ilog2_def bit_length.simps pow2_def round_even_def)

lemma py_float_15: "py_float ''15'' = Inr 15"
  by (simp add: py_float_def strip_def is_space_def split_sign_def digit_val_def double_15)

lemma upper_WARNING: "upper ''WARNING'' = ''WARNING''"
  by (simp add: upper_def)

lemma Config_load_fetches:
  "py_int n = Inr x \<Longrightarrow> n \<noteq> [] \<Longrightarrow>
     Config_load (env_all ''15'' n) = Inr (cfg_zero\<lparr> max_concurrent_fetches := x \<rparr>)"
  by (simp add: Config_load_def env_all_def getenv_or_cls_def and_then_def py_float_15 upper_WARNING cfg_zero_def)

lemma configure_WARNING: "configure_logging False ''WARNING'' = Inr 30"
  by (simp add: configure_logging_def nameToLevel_def)

lemmas run_eval = run_def run_with_def MongoStore_init_def cfg_zero_def run_worker_def
  sample_urls_def worker.simps process_task_def task_world_ok_def fetch_def world_ok_def world_down_def
  extraction_def save_page_def Let_def or_else_def hex_example latency_example cleanup_def
  configure_WARNING log_call_def emit_def signal_handler_def pydantic_v2_def

lemma run_down:
  "run rw_down =
     ([Log (WARNING, ''Mongo not configured or motor missing; persistence disabled'', []),
       Log (WARNING, ''aiokafka not installed; using synthetic tasks'', []),
       Pulled \<lparr>url = ''https://example.org/'', id' = None, priority = None\<rparr>,
       Closed TaskSource, Closed FetchStage, Closed PersistenceStage],
      Propagates (Exception (''Logger._log() got an unexpected keyword argument '' @ quoted ''url'')))"
  by (simp add: rw_down_def rw_degraded_def Config_load_fetches [OF py_int_1] run_eval)

text \<open>
  C1. Whenever the GET fails with an error of class \<^verbatim>\<open>Exception\<close> (the transport,
  timeout and protocol errors of httpx are such) and the logger has the level ERROR
  enabled, \<^verbatim>\<open>fetch\<close> raises: the handler's call
  \<^verbatim>\<open>logger.error("fetch_failed", url=..., error=...)\<close> raises \<^verbatim>\<open>TypeError\<close> before
  the failure document is returned. ERROR is enabled at every log level but
  \<^verbatim>\<open>CRITICAL\<close>.
\<close>

theorem fetch_raises_on_transport_error:
  assumes "lgr \<le> 40" and "client_get w (url task) = Inl (Exception msg)"
  shows "fetch lgr w task
           = Inl (Exception (''Logger._log() got an unexpected keyword argument '' @ quoted ''url''))"
  using assms by (simp add: fetch_def Let_def log_call_def)

theorem fetch_raises_on_transport_error_witness:
  "configure_logging False ''WARNING'' = Inr 30 \<and>
   client_get world_down ''https://example.org/'' = Inl (Exception ''[Errno -2] Name or service not known'') \<and>
   fetch 30 world_down \<lparr>url = ''https://example.org/'', id' = None, priority = None\<rparr>
     = Inl (Exception (''Logger._log() got an unexpected keyword argument '' @ quoted ''url'')) \<and>
   snd (run rw_down)
     = Propagates (Exception (''Logger._log() got an unexpected keyword argument '' @ quoted ''url'')) \<and>
   saved (fst (run rw_down)) = []"
proof -
  let ?t = "\<lparr>url = ''https://example.org/'', id' = None, priority = None\<rparr>"
  have g: "client_get world_down (url ?t) = Inl (Exception ''[Errno -2] Name or service not known'')"
    by (simp add: world_down_def world_ok_def)
  have l: "(30 :: nat) \<le> 40"
    by simp
  from fetch_raises_on_transport_error [OF l g] g show ?thesis
    by (simp add: configure_WARNING run_down)
qed

text \<open>
  C10. When \<^verbatim>\<open>fetch\<close> returns a document for a task whose id is the empty string, the
  \<^verbatim>\<open>_id\<close> of the document is the hexadecimal form of the eight random bytes, sixteen
  characters among \<^verbatim>\<open>0-9a-f\<close>, and the whole result is the one of the same task without
  an id. A task without an id gets the random identifier too, and only an id that is
  not empty is copied. The identifier is generated from the random bytes: other bytes
  give another identifier.
\<close>

theorem fetch_id_or_random:
  assumes "fetch lgr w task = Inr (doc, lg)"
  shows "(id' task = Some [] \<longrightarrow>
            doc_id doc = hex (urandom8 w) \<and> length (doc_id doc) = 16 \<and>
            set (doc_id doc) \<subseteq> set ''0123456789abcdef'' \<and>
            fetch lgr w (task\<lparr> id' := None \<rparr>) = fetch lgr w task) \<and>
         (id' task = None \<longrightarrow> doc_id doc = hex (urandom8 w)) \<and>
         (\<forall>s. id' task = Some s \<longrightarrow> s \<noteq> [] \<longrightarrow> doc_id doc = s) \<and>
         (\<forall>w'. hex (urandom8 w') = hex (urandom8 w) \<longrightarrow> urandom8 w' = urandom8 w)"
proof -
  have d: "doc_id doc = or_else (id' task) (hex (urandom8 w))"
    using assms by (rule fetch_doc_id)
  have same: "id' task = Some [] \<Longrightarrow> fetch lgr w (task\<lparr> id' := None \<rparr>) = fetch lgr w task"
    by (auto simp: fetch_def or_else_def Let_def split: sum.splits py_exc.splits)
  have chars: "set (hex (urandom8 w)) \<subseteq> set ''0123456789abcdef''"
    using hex_chars by blast
  have inj: "hex (urandom8 w') = hex (urandom8 w) \<Longrightarrow> urandom8 w' = urandom8 w" for w'
    by (rule hex_inj)
  show ?thesis
    using d same chars inj by (auto simp: or_else_def length_hex simp del: set_simps list.set)
qed

theorem fetch_id_or_random_witness:
  "(\<exists>doc lg. fetch 30 world_ok \<lparr> url = ''https://example.org/'', id' = Some [], priority = None \<rparr> = Inr (doc, lg) \<and>
      doc_id doc = ''0123456789abcdef'') \<and>
   (\<exists>doc lg. fetch 30 (world_ok\<lparr> urandom8 := 0xfedcba9876543210 \<rparr>)
                \<lparr> url = ''https://example.org/'', id' = Some [], priority = None \<rparr> = Inr (doc, lg) \<and>
      doc_id doc = ''fedcba9876543210'') \<and>
   (\<exists>doc lg. fetch 50 world_down \<lparr> url = ''https://example.org/'', id' = Some ''job-7'', priority = None \<rparr> = Inr (doc, lg) \<and>
      doc_id doc = ''job-7'')"
proof -
  let ?t = "\<lparr> url = ''https://example.org/'', id' = Some [], priority = None \<rparr>"
  let ?u = "\<lparr> url = ''https://example.org/'', id' = Some ''job-7'', priority = None \<rparr>"
  let ?w = "world_ok\<lparr> urandom8 := 0xfedcba9876543210 \<rparr>"
  obtain doc lg where f: "fetch 30 world_ok ?t = Inr (doc, lg)"
    by (simp add: fetch_def world_ok_def)
  from fetch_id_or_random [OF f] have "id' ?t = Some [] \<longrightarrow> doc_id doc = hex (urandom8 world_ok)"
    by blast
  then have "doc_id doc = hex (urandom8 world_ok)"
    by simp
  then have a: "doc_id doc = ''0123456789abcdef''"
    by (simp add: world_ok_def hex_example)
  obtain doc2 lg2 where f2: "fetch 30 ?w ?t = Inr (doc2, lg2)"
    by (simp add: fetch_def world_ok_def)
  from fetch_id_or_random [OF f2] have "id' ?t = Some [] \<longrightarrow> doc_id doc2 = hex (urandom8 ?w)"
    by blast
  then have "doc_id doc2 = hex (urandom8 ?w)"
    by simp
  then have a2: "doc_id doc2 = ''fedcba9876543210''"
    by (simp add: hex_example')
  obtain doc' lg' where g: "fetch 50 world_down ?u = Inr (doc', lg')"
    by (simp add: fetch_def world_down_def world_ok_def log_call_def)
  from fetch_id_or_random [OF g] have "\<forall>s. id' ?u = Some s \<longrightarrow> s \<noteq> [] \<longrightarrow> doc_id doc' = s"
    by blast
  then have b: "doc_id doc' = ''job-7''"
    by simp
  show ?thesis using f a f2 a2 g b by blast
qed

subsection \<open>The invariant of page documents\<close>

lemma saved_append: "saved (a @ b) = saved a @ saved b"
  by (induction a rule: saved.induct) auto

lemma saved_map_Log: "saved (map Log l) = []"
  by (induction l) auto

lemma saved_signal_handler: "saved (signal_handler lgr name) = []"
  by (simp add: signal_handler_def saved_append saved_map_Log split: sum.splits)

lemma get_tasks_saved: "get_tasks lgr cd src = (r, src', ms) \<Longrightarrow> saved ms = []"
proof (induction lgr cd src arbitrary: r src' ms rule: get_tasks.induct)
  case (4 lgr cd name es)
  then show ?case by (auto simp: saved_append saved_signal_handler split: prod.splits)
next
  case (6 lgr cd m es)
  then show ?case by (auto simp: saved_append saved_map_Log split: sum.splits prod.splits)
qed (auto split: if_splits)

lemma fetch_invariant: "fetch lgr w task = Inr (doc, lg) \<Longrightarrow> record_invariant doc"
  by (auto simp: fetch_def Let_def record_invariant_def split: sum.splits py_exc.splits)

lemma extraction_fields:
  "extraction p bw doc = (lg, Inr doc') \<Longrightarrow>
     error doc' = error doc \<and> status_code doc' = status_code doc \<and> html doc' = html doc"
  by (auto simp: extraction_def split: if_splits prod.splits sum.splits py_exc.splits)

lemma extraction_invariant:
  "extraction p bw doc = (lg, Inr doc') \<Longrightarrow> record_invariant doc \<Longrightarrow> record_invariant doc'"
  using extraction_fields [of p bw doc lg doc'] by (simp add: record_invariant_def)

lemma process_task_saved:
  "process_task p tw st task = (ms, r) \<Longrightarrow> d \<in> set (saved ms) \<Longrightarrow> record_invariant d"
  by (auto simp: process_task_def Let_def saved_append saved_map_Log saved_signal_handler
           split: option.splits sum.splits prod.splits
           dest: fetch_invariant extraction_invariant)

lemma worker_saved:
  "worker p tws src s = (we, s') \<Longrightarrow> \<forall>d \<in> set (saved (trace s)). record_invariant d \<Longrightarrow>
     \<forall>d \<in> set (saved (trace s')). record_invariant d"
proof (induction p tws src s arbitrary: we s' rule: worker.induct)
  case (1 p tws src s)
  obtain r src' ms where g: "get_tasks (logger p) (pydantic p) src = (r, src', ms)"
    by (cases "get_tasks (logger p) (pydantic p) src") auto
  have ms: "saved ms = []"
    using g by (rule get_tasks_saved)
  show ?case
  proof (cases r)
    case (Yield task)
    obtain ms2 r2 where pt: "process_task p (tws (processed s)) (store s) task = (ms2, r2)"
      by (cases "process_task p (tws (processed s)) (store s) task") auto
    have ms2: "\<forall>d \<in> set (saved ms2). record_invariant d"
      using process_task_saved [OF pt] by blast
    show ?thesis
    proof (cases r2)
      case (Inl e)
      with "1.prems" g Yield pt ms ms2 show ?thesis
        by (subst (asm) worker.simps) (auto simp: saved_append)
    next
      case (Inr st')
      let ?s = "\<lparr> store = st', trace = trace s @ ms @ [Pulled task] @ ms2, processed = Suc (processed s) \<rparr>"
      have inv: "\<forall>d \<in> set (saved (trace ?s)). record_invariant d"
        using "1.prems"(2) ms ms2 by (auto simp: saved_append)
      show ?thesis
      proof (cases "SignalSet \<in> set (trace ?s)")
        case True
        with "1.prems"(1) g Yield pt Inr inv show ?thesis
          by (subst (asm) worker.simps) (auto simp: saved_append)
      next
        case False
        with "1.prems"(1) g Yield pt Inr have w: "worker p tws src' ?s = (we, s')"
          by (subst (asm) worker.simps) (auto simp: Let_def)
        show ?thesis
          using "1.IH" [OF g [symmetric] Yield refl pt [symmetric] Inr refl False w inv] .
      qed
    qed
  qed (use "1.prems" g ms in \<open>subst (asm) worker.simps, auto simp: saved_append\<close>)+
qed

lemma saved_cleanup: "saved (cleanup lgr c b) = []"
  by (simp add: cleanup_def saved_append saved_map_Log)

lemma run_worker_saved:
  assumes "\<forall>d \<in> set (saved tr). record_invariant d"
  shows "\<forall>d \<in> set (saved (fst (run_worker p tws src c tr st))). record_invariant d"
proof -
  obtain we s' where w: "worker p tws src \<lparr> store = st, trace = tr, processed = 0 \<rparr> = (we, s')"
    by (cases "worker p tws src \<lparr> store = st, trace = tr, processed = 0 \<rparr>") auto
  have "\<forall>d \<in> set (saved (trace s')). record_invariant d"
    using worker_saved [OF w] assms by simp
  then show ?thesis
    using w by (cases we) (auto simp: run_worker_def saved_append saved_cleanup)
qed

lemma run_with_cases:
  "(\<exists>lg e. run_with cfg rw = (map Log lg, Propagates e)) \<or>
   (\<exists>p src c lg st. browser_worker p = webdriver rw \<and>
      run_with cfg rw = run_worker p (task_worlds rw) src c (map Log lg) st)"
proof (cases "configure_logging (structlog rw) (log_level cfg)")
  case (Inl e)
  then have "run_with cfg rw = (map Log [], Propagates e)"
    by (simp add: run_with_def)
  then show ?thesis by blast
next
  case lgr: (Inr lgr)
  show ?thesis
  proof (cases "log_call lgr INFO ''service_starting'' [(''config'', PyDict (cfg_dump cfg))]")
    case (Inl e)
    then have "run_with cfg rw = (map Log [], Propagates e)"
      using lgr by (simp add: run_with_def)
    then show ?thesis by blast
  next
    case starting: (Inr starting)
    show ?thesis
    proof (cases "if webdriver rw then chrome_start rw else None")
      case (Some e)
      then have "run_with cfg rw = (map Log starting, Propagates e)"
        using lgr starting by (simp add: run_with_def)
      then show ?thesis by blast
    next
      case sel: None
      obtain st lg where m: "MongoStore_init lgr cfg (motor rw) (held rw) = (st, lg)"
        by (cases "MongoStore_init lgr cfg (motor rw) (held rw)")
      let ?p = "\<lparr> logger = lgr, fetcher = Fetcher_init cfg, browser_worker = webdriver rw,
                  pydantic = json_pydantic rw, driver = mongo rw \<rparr>"
      show ?thesis
      proof (cases "aiokafka rw")
        case False
        have "run_with cfg rw = run_worker ?p (task_worlds rw) (Synthetic sample_urls) False
                (map Log (starting @ lg @ emit lgr WARNING ''aiokafka not installed; using synthetic tasks'')) st"
          using lgr starting m False sel by (simp add: run_with_def split del: if_split)
        moreover have "browser_worker ?p = webdriver rw"
          by simp
        ultimately show ?thesis by blast
      next
        case True
        show ?thesis
        proof (cases "consumer_start rw")
          case (Some e)
          then have "run_with cfg rw = (map Log (starting @ lg), Propagates e)"
            using lgr starting m True sel by (simp add: run_with_def split del: if_split)
          then show ?thesis by blast
        next
          case None
          show ?thesis
          proof (cases "log_call lgr INFO ''kafka_consumer_started'' [(''topic'', PyStr (kafka_topic cfg))]")
            case (Inl e)
            then have "run_with cfg rw = (map Log (starting @ lg), Propagates e)"
              using lgr starting m True sel None by (simp add: run_with_def split del: if_split)
            then show ?thesis by blast
          next
            case (Inr started)
            then have "run_with cfg rw = run_worker ?p (task_worlds rw) (Live (events rw)) True
                         (map Log (starting @ lg @ started)) st"
              using lgr starting m True sel None by (simp add: run_with_def split del: if_split)
            moreover have "browser_worker ?p = webdriver rw"
              by simp
            ultimately show ?thesis by blast
          qed
        qed
      qed
    qed
  qed
qed

lemma run_with_saved: "\<forall>d \<in> set (saved (fst (run_with cfg rw))). record_invariant d"
  using run_with_cases [of cfg rw]
proof (elim disjE exE conjE)
  fix lg e
  assume "run_with cfg rw = (map Log lg, Propagates e)"
  then show ?thesis by (simp add: saved_map_Log)
next
  fix p src c lg st
  assume r: "run_with cfg rw = run_worker p (task_worlds rw) src c (map Log lg) st"
  have "\<forall>d \<in> set (saved (fst (run_worker p (task_worlds rw) src c (map Log lg) st))). record_invariant d"
    by (rule run_worker_saved) (simp add: saved_map_Log)
  then show ?thesis using r by simp
qed

lemma run_saved: "\<forall>d \<in> set (saved (fst (run rw))). record_invariant d"
  using run_with_saved by (auto simp: run_def split: sum.splits)

text \<open>
  C2. The document that \<^verbatim>\<open>fetch\<close> returns satisfies the invariant: error set, status
  code absent and html absent are equivalent two by two. The extraction block keeps it,
  since it adds the question and the answer only. Hence every document for which
  \<^verbatim>\<open>save_page\<close> returned in a run satisfies it.
\<close>

theorem page_records_invariant:
  "(\<forall>doc lg. fetch lgr w task = Inr (doc, lg) \<longrightarrow> record_invariant doc) \<and>
   (\<forall>doc lg doc'. record_invariant doc \<longrightarrow> extraction p bw doc = (lg, Inr doc') \<longrightarrow> record_invariant doc') \<and>
   (\<forall>doc \<in> set (saved (fst (run rw))). record_invariant doc)"
  using fetch_invariant extraction_invariant run_saved by blast

theorem page_records_invariant_witness:
  "\<exists>doc lg. fetch 50 world_down \<lparr> url = ''https://unreachable.invalid/'', id' = None, priority = None \<rparr> = Inr (doc, lg) \<and>
     error doc \<noteq> None \<and> status_code doc = None \<and> html doc = None"
proof -
  let ?t = "\<lparr> url = ''https://unreachable.invalid/'', id' = None, priority = None \<rparr>"
  obtain doc lg where f: "fetch 50 world_down ?t = Inr (doc, lg)" and e: "error doc \<noteq> None"
    by (simp add: fetch_def world_down_def world_ok_def log_call_def)
  from page_records_invariant [of 50 world_down ?t] f have "record_invariant doc"
    by blast
  with e have "status_code doc = None \<and> html doc = None"
    by (simp add: record_invariant_def)
  with f e show ?thesis by blast
qed

subsection \<open>Pipeline Coordinator\<close>

lemma occupancy_append: "occupancy (a @ b) = occupancy a + occupancy b"
  by (induction a rule: occupancy.induct) auto

lemma pulled_append: "pulled (a @ b) = pulled a @ pulled b"
  by (induction a rule: pulled.induct) auto

lemma closed_append: "closed (a @ b) = closed a @ closed b"
  by (induction a rule: closed.induct) auto

lemma still_occupancy: "list_all still q \<Longrightarrow> occupancy q = 0"
  by (induction q rule: occupancy.induct) auto

lemma still_pulled: "list_all still q \<Longrightarrow> pulled q = []"
  by (induction q rule: pulled.induct) auto

lemma still_closed: "list_all still q \<Longrightarrow> closed q = []"
  by (induction q rule: closed.induct) auto

lemma still_take: "list_all still q \<Longrightarrow> list_all still (take n q)"
  by (auto simp: list_all_iff dest: in_set_takeD)

lemma still_takeWhile: "list_all still q \<Longrightarrow> list_all still (takeWhile P q)"
  by (auto simp: list_all_iff dest: set_takeWhileD)

lemma still_dropWhile: "list_all still q \<Longrightarrow> list_all still (dropWhile P q)"
  by (auto simp: list_all_iff dest: set_dropWhileD)

lemma still_map_Log: "list_all still (map Log l)"
  by (induction l) auto

lemma signal_free_map_Log: "SignalSet \<notin> set (map Log l)"
  by (induction l) auto

lemma still_signal_handler: "list_all still (signal_handler lgr name)"
  by (simp add: signal_handler_def still_map_Log split: sum.splits)

lemma pulled_dropWhile_Nil: "pulled xs = [] \<Longrightarrow> pulled (dropWhile P xs) = []"
  by (induction xs rule: pulled.induct) (auto split: if_splits)

lemma get_tasks_still: "get_tasks lgr cd src = (r, src', ms) \<Longrightarrow> list_all still ms"
proof (induction lgr cd src arbitrary: r src' ms rule: get_tasks.induct)
  case (4 lgr cd name es)
  then show ?case by (auto simp: still_signal_handler split: prod.splits)
next
  case (6 lgr cd m es)
  then show ?case by (auto simp: still_map_Log split: sum.splits prod.splits)
qed (auto split: if_splits)

lemma fetch_url: "fetch lgr w task = Inr (doc, lg) \<Longrightarrow> doc_url doc = url task"
  by (auto simp: fetch_def Let_def split: sum.splits py_exc.splits)

lemma extraction_url: "extraction p bw doc = (lg, Inr doc') \<Longrightarrow> doc_url doc' = doc_url doc"
  by (auto simp: extraction_def split: if_splits prod.splits sum.splits py_exc.splits)

lemma process_task_marks:
  assumes "process_task p tw st task = (ms2, r)"
  shows "case r of
           Inl e \<Rightarrow> list_all still ms2 \<and> (saved ms2 = [] \<or> map doc_url (saved ms2) = [url task])
         | Inr st' \<Rightarrow> \<exists>q. ms2 = q @ [Done] \<and> list_all still q \<and> map doc_url (saved q) = [url task]"
proof -
  define sig where "sig = (case signal_during tw of None \<Rightarrow> [] | Some name \<Rightarrow> signal_handler (logger p) name)"
  have sg: "list_all still sig" "saved sig = []"
    by (auto simp: sig_def still_signal_handler saved_signal_handler split: option.splits)
  have pt: "process_task p tw st task =
     (case fetch (logger p) (fetching tw) task of
           Inl e \<Rightarrow> (sig, Inl e)
         | Inr (page_doc, lg) \<Rightarrow>
            (case extraction p (browsing tw) page_doc of
               (lg2, Inl e) \<Rightarrow> (sig @ map Log (lg @ lg2), Inl e)
             | (lg2, Inr doc) \<Rightarrow>
                (case save_page (driver p) st doc of
                   Inl e \<Rightarrow> (sig @ map Log (lg @ lg2), Inl e)
                 | Inr st' \<Rightarrow>
                    (case log_call (logger p) INFO ''task_processed''
                            [(''url'', PyStr (doc_url doc)),
                             (''status_code'', case status_code doc of None \<Rightarrow> PyNone | Some c \<Rightarrow> PyInt c)] of
                       Inl e \<Rightarrow> (sig @ map Log (lg @ lg2) @ [Saved doc], Inl e)
                     | Inr lg3 \<Rightarrow>
                        (sig @ map Log (lg @ lg2) @ [Saved doc] @ map Log lg3 @ [Done], Inr st')))))"
    unfolding process_task_def sig_def Let_def ..
  show ?thesis
  proof (cases "fetch (logger p) (fetching tw) task")
    case (Inl e)
    with assms pt sg show ?thesis
      by auto
  next
    case (Inr x)
    obtain page_doc lg where x: "x = (page_doc, lg)" by (cases x)
    have u: "doc_url page_doc = url task"
      using Inr x by (auto dest: fetch_url)
    obtain lg2 y where e: "extraction p (browsing tw) page_doc = (lg2, y)"
      by (cases "extraction p (browsing tw) page_doc")
    define q where "q = sig @ map Log (lg @ lg2)"
    have q: "list_all still q" "saved q = []"
      using sg still_map_Log [of "lg @ lg2"] by (simp_all add: q_def saved_append saved_map_Log)
    show ?thesis
    proof (cases y)
      case (Inl e')
      with assms pt Inr x e have "ms2 = q \<and> r = Inl e'"
        by (simp add: q_def)
      with q show ?thesis by simp
    next
      case y: (Inr doc)
      have ud: "doc_url doc = url task"
        using e y u by (auto dest: extraction_url)
      show ?thesis
      proof (cases "save_page (driver p) st doc")
        case (Inl e')
        with assms pt Inr x e y have "ms2 = q \<and> r = Inl e'"
          by (simp add: q_def)
        with q show ?thesis by simp
      next
        case s: (Inr st')
        show ?thesis
        proof (cases "log_call (logger p) INFO ''task_processed''
                     [(''url'', PyStr (doc_url doc)),
                      (''status_code'', case status_code doc of None \<Rightarrow> PyNone | Some c \<Rightarrow> PyInt c)]")
          case (Inl e')
          with assms pt \<open>fetch (logger p) (fetching tw) task = Inr x\<close> x e y s
          have "ms2 = q @ [Saved doc] \<and> r = Inl e'"
            by (simp add: q_def)
          with q ud show ?thesis by (simp add: saved_append)
        next
          case (Inr lg3)
          with assms pt \<open>fetch (logger p) (fetching tw) task = Inr x\<close> x e y s
          have m: "ms2 = (q @ [Saved doc] @ map Log lg3) @ [Done] \<and> r = Inr st'"
            by (simp add: q_def)
          have "list_all still (q @ [Saved doc] @ map Log lg3)"
            using q still_map_Log [of lg3] by simp
          moreover have "map doc_url (saved (q @ [Saved doc] @ map Log lg3)) = [url task]"
            using q ud by (simp add: saved_append saved_map_Log)
          ultimately show ?thesis using m by (simp del: append_assoc)
        qed
      qed
    qed
  qed
qed

lemma still_orderly: "list_all still q \<Longrightarrow> orderly q"
  by (simp add: orderly_def pulled_after_signal_def still_occupancy still_take still_pulled
       still_dropWhile still_takeWhile)

lemma pas_signal_in:
  "SignalSet \<in> set a \<Longrightarrow> pulled_after_signal (a @ b) = pulled_after_signal a @ pulled b"
  by (simp add: pulled_after_signal_def dropWhile_append1 pulled_append)

lemma pas_signal_free:
  "SignalSet \<notin> set a \<Longrightarrow> pulled_after_signal (a @ b) = pulled_after_signal b"
proof -
  assume "SignalSet \<notin> set a"
  then have "dropWhile (\<lambda>m. m \<noteq> SignalSet) (a @ b) = dropWhile (\<lambda>m. m \<noteq> SignalSet) b"
    by (intro dropWhile_append2) auto
  then show ?thesis by (simp add: pulled_after_signal_def)
qed

lemma takeWhile_signal_in:
  "SignalSet \<in> set a \<Longrightarrow> takeWhile (\<lambda>m. m \<noteq> SignalSet) (a @ b) = takeWhile (\<lambda>m. m \<noteq> SignalSet) a"
  by (simp add: takeWhile_append1)

lemma takeWhile_signal_free:
  "SignalSet \<notin> set a \<Longrightarrow> takeWhile (\<lambda>m. m \<noteq> SignalSet) (a @ b) = a @ takeWhile (\<lambda>m. m \<noteq> SignalSet) b"
  by (intro takeWhile_append2) auto

lemma orderly_append:
  assumes a: "orderly a" and free: "SignalSet \<notin> set a" and zero: "occupancy a = 0" and b: "orderly b"
  shows "orderly (a @ b)"
proof -
  have "occupancy (take n (a @ b)) \<in> {0, 1}" for n
  proof (cases "n \<le> length a")
    case True
    then show ?thesis using a by (simp add: orderly_def)
  next
    case False
    then show ?thesis using b zero by (simp add: orderly_def occupancy_append)
  qed
  then show ?thesis
    using b free zero
    by (simp add: orderly_def pas_signal_free takeWhile_signal_free occupancy_append)
qed

lemma orderly_suffix:
  assumes a: "orderly a" and occ: "\<And>n. occupancy (take n q) = 0" and pul: "pulled q = []"
  shows "orderly (a @ q)"
proof -
  have pre: "occupancy (take n (a @ q)) \<in> {0, 1}" for n
    using a occ by (simp add: orderly_def occupancy_append)
  show ?thesis
  proof (cases "SignalSet \<in> set a")
    case True
    then show ?thesis
      using a pre by (simp add: orderly_def pas_signal_in takeWhile_signal_in pul)
  next
    case False
    then have "pulled_after_signal (a @ q) = pulled_after_signal q"
      by (rule pas_signal_free)
    also have "\<dots> = []"
      by (simp add: pulled_after_signal_def pulled_dropWhile_Nil [OF pul])
    finally have "pulled_after_signal (a @ q) = []" .
    then show ?thesis
      using pre by (simp add: orderly_def)
  qed
qed

lemma occupancy_take_tail: "occupancy (take n [Done]) \<in> {0, - 1}"
  by (simp add: take_Cons')

lemma occupancy_take_body:
  assumes q2: "list_all still q2" and tail: "tail = [] \<or> tail = [Done]"
  shows "occupancy (take n (Pulled t # q2 @ tail)) \<in> {0, 1}"
proof (cases n)
  case 0
  then show ?thesis by simp
next
  case (Suc k)
  have "occupancy (take (k - length q2) tail) \<in> {0, - 1}"
    using tail occupancy_take_tail [of "k - length q2"] by auto
  then show ?thesis
    using Suc still_occupancy [OF still_take [OF q2]] by (auto simp: occupancy_append)
qed

lemma segment_orderly:
  assumes q1: "list_all still q1" and q2: "list_all still q2"
    and tail: "tail = [] \<or> tail = [Done]"
  shows "orderly (q1 @ Pulled t # q2 @ tail)"
proof -
  have nopull: "pulled (q2 @ tail) = []"
    using tail still_pulled [OF q2] by (auto simp: pulled_append)
  have pre: "occupancy (take n (q1 @ Pulled t # q2 @ tail)) \<in> {0, 1}" for n
    using occupancy_take_body [OF q2 tail, of "n - length q1" t] still_occupancy [OF still_take [OF q1]]
    by (simp add: occupancy_append)
  show ?thesis
  proof (cases "SignalSet \<in> set q1")
    case True
    then show ?thesis
      using pre nopull still_pulled [OF still_dropWhile [OF q1]] still_occupancy [OF still_takeWhile [OF q1]]
      by (simp add: orderly_def pas_signal_in takeWhile_signal_in) (simp add: pulled_after_signal_def)
  next
    case False
    then have "pulled_after_signal (q1 @ Pulled t # q2 @ tail) = pulled (dropWhile (\<lambda>m. m \<noteq> SignalSet) (q2 @ tail))"
      by (simp add: pas_signal_free) (simp add: pulled_after_signal_def)
    then have "pulled_after_signal (q1 @ Pulled t # q2 @ tail) = []"
      using pulled_dropWhile_Nil [OF nopull] by simp
    then show ?thesis
      using pre by (simp add: orderly_def)
  qed
qed

lemma worker_trace:
  "worker p tws src s = (we, s') \<Longrightarrow>
     \<exists>rest. trace s' = trace s @ rest \<and>
       (SignalSet \<notin> set (trace s) \<longrightarrow> orderly rest) \<and>
       (map doc_url (saved rest) = map url (pulled rest) \<or>
        (\<exists>e. we = Raised e) \<and> map doc_url (saved rest) = butlast (map url (pulled rest))) \<and>
       closed rest = []"
proof (induction p tws src s arbitrary: we s' rule: worker.induct)
  case (1 p tws src s)
  obtain r src' ms where g: "get_tasks (logger p) (pydantic p) src = (r, src', ms)"
    by (cases "get_tasks (logger p) (pydantic p) src") auto
  have ms: "list_all still ms"
    using g by (rule get_tasks_still)
  have sms: "saved ms = []"
    using g by (rule get_tasks_saved)
  note plain = still_orderly [OF ms] sms still_pulled [OF ms] still_closed [OF ms]
  show ?case
  proof (cases r)
    case (Yield task)
    obtain ms2 r2 where pt: "process_task p (tws (processed s)) (store s) task = (ms2, r2)"
      by (cases "process_task p (tws (processed s)) (store s) task") auto
    note shape = process_task_marks [OF pt]
    show ?thesis
    proof (cases r2)
      case (Inl e)
      define q where "q = ms2"
      from shape Inl have q: "list_all still q" and sq: "saved q = [] \<or> map doc_url (saved q) = [url task]"
        by (simp_all add: q_def)
      have ms2: "ms2 = q"
        by (simp add: q_def)
      have o: "orderly (ms @ Pulled task # q @ [])"
        by (rule segment_orderly [OF ms q]) simp
      have t: "we = Raised e \<and> trace s' = trace s @ (ms @ Pulled task # q)"
        using "1.prems" g Yield pt Inl ms2 by (subst (asm) worker.simps) auto
      have sv: "map doc_url (saved (ms @ Pulled task # q)) = map url (pulled (ms @ Pulled task # q)) \<or>
                map doc_url (saved (ms @ Pulled task # q)) = butlast (map url (pulled (ms @ Pulled task # q)))"
        using sq by (auto simp: saved_append pulled_append plain(2,3) still_pulled [OF q])
      have cl: "closed (ms @ Pulled task # q) = []"
        by (simp add: closed_append plain(4) still_closed [OF q])
      show ?thesis
        using t o sv cl by auto
    next
      case (Inr st')
      with shape obtain q where ms2: "ms2 = q @ [Done]" and q: "list_all still q"
        and du: "map doc_url (saved q) = [url task]"
        by auto
      let ?seg = "ms @ Pulled task # q @ [Done]"
      let ?s = "\<lparr> store = st', trace = trace s @ ms @ [Pulled task] @ ms2, processed = Suc (processed s) \<rparr>"
      have tr: "trace ?s = trace s @ ?seg"
        by (simp add: ms2)
      have o: "orderly ?seg"
        by (rule segment_orderly [OF ms q]) simp
      have occ: "occupancy ?seg = 0"
        by (simp add: occupancy_append still_occupancy [OF ms] still_occupancy [OF q])
      have sv: "map doc_url (saved ?seg) = [url task]" and pl: "map url (pulled ?seg) = [url task]"
        using du by (simp_all add: saved_append pulled_append plain(2,3) still_pulled [OF q])
      have cl: "closed ?seg = []"
        by (simp add: closed_append plain(4) still_closed [OF q])
      show ?thesis
      proof (cases "SignalSet \<in> set (trace ?s)")
        case True
        with "1.prems" g Yield pt Inr have "we = Broke \<and> s' = ?s"
          by (subst (asm) worker.simps) (auto simp: Let_def)
        then show ?thesis
          using tr o sv pl cl by auto
      next
        case False
        with "1.prems" g Yield pt Inr have w: "worker p tws src' ?s = (we, s')"
          by (subst (asm) worker.simps) (auto simp: Let_def)
        from "1.IH" [OF g [symmetric] Yield refl pt [symmetric] Inr refl False w]
        obtain rest where rest: "trace s' = trace ?s @ rest" "orderly rest"
          "map doc_url (saved rest) = map url (pulled rest) \<or>
           (\<exists>e. we = Raised e) \<and> map doc_url (saved rest) = butlast (map url (pulled rest))"
          "closed rest = []"
          using False by blast
        have free: "SignalSet \<notin> set ?seg"
          using False tr by simp
        have "trace s' = trace s @ (?seg @ rest)"
          using rest(1) tr by simp
        moreover have "orderly (?seg @ rest)"
          by (rule orderly_append [OF o free occ rest(2)])
        moreover have "map doc_url (saved (?seg @ rest)) = map url (pulled (?seg @ rest)) \<or>
            (\<exists>e. we = Raised e) \<and> map doc_url (saved (?seg @ rest)) = butlast (map url (pulled (?seg @ rest)))"
        proof (cases "pulled rest = []")
          case True
          with rest(3) have "map doc_url (saved rest) = map url (pulled rest)"
            by auto
          then show ?thesis
            using sv pl by (simp only: saved_append pulled_append map_append) simp
        next
          case False
          then have "butlast (map url (pulled (?seg @ rest))) = url task # butlast (map url (pulled rest))"
            using pl by (simp only: pulled_append map_append) simp
          moreover have "map doc_url (saved (?seg @ rest)) = url task # map doc_url (saved rest)"
            using sv by (simp only: saved_append map_append) simp
          moreover have "map url (pulled (?seg @ rest)) = url task # map url (pulled rest)"
            using pl by (simp only: pulled_append map_append) simp
          ultimately show ?thesis
            using rest(3) by auto
        qed
        moreover have "closed (?seg @ rest) = []"
          using rest(4) cl by (simp only: closed_append) simp
        ultimately show ?thesis by blast
      qed
    qed
  next
    case Return
    with "1.prems" g have "trace s' = trace s @ ms \<and> we = Exhausted"
      by (subst (asm) worker.simps) auto
    then show ?thesis using plain by auto
  next
    case (Raise e)
    with "1.prems" g have "trace s' = trace s @ ms \<and> we = Raised e"
      by (subst (asm) worker.simps) auto
    then show ?thesis using plain by auto
  next
    case Pending
    with "1.prems" g have "trace s' = trace s @ ms \<and> we = Waiting"
      by (subst (asm) worker.simps) auto
    then show ?thesis using plain by auto
  qed
qed

lemma inert:
  "set q \<subseteq> range Log \<union> range Closed \<Longrightarrow> occupancy q = 0 \<and> pulled q = [] \<and> saved q = []"
  by (induction q) auto

lemma cleanup_inert: "set (cleanup lgr c b) \<subseteq> range Log \<union> range Closed"
  by (auto simp: cleanup_def)

lemma cleanup_occupancy: "occupancy (take n (cleanup lgr c b)) = 0"
proof -
  have "set (take n (cleanup lgr c b)) \<subseteq> range Log \<union> range Closed"
    using cleanup_inert [of lgr c b] set_take_subset [of n "cleanup lgr c b"] by blast
  then show ?thesis using inert by blast
qed

lemma closed_map_Log: "closed (map Log l) = []"
  by (induction l) auto

lemma closed_cleanup:
  "closed (cleanup lgr c b) = [TaskSource, FetchStage, PersistenceStage] @ (if b then [ExtractionStage] else [])"
  by (simp add: cleanup_def closed_append closed_map_Log)

lemma run_worker_trace: "run_shape (browser_worker p) (run_worker p tws src c (map Log lg) st)"
proof -
  let ?tr = "map Log lg"
  have tr: "list_all still ?tr" and free: "SignalSet \<notin> set ?tr"
    by (rule still_map_Log, rule signal_free_map_Log)
  obtain we s' where w: "worker p tws src \<lparr> store = st, trace = ?tr, processed = 0 \<rparr> = (we, s')"
    by (cases "worker p tws src \<lparr> store = st, trace = ?tr, processed = 0 \<rparr>") auto
  from worker_trace [OF w] free obtain rest where rest: "trace s' = ?tr @ rest" "orderly rest"
      "map doc_url (saved rest) = map url (pulled rest) \<or>
       (\<exists>e. we = Raised e) \<and> map doc_url (saved rest) = butlast (map url (pulled rest))"
      "closed rest = []"
    by auto
  have o: "orderly (?tr @ rest)"
    by (rule orderly_append [OF still_orderly [OF tr] free still_occupancy [OF tr] rest(2)])
  have oc: "orderly ((?tr @ rest) @ cleanup (logger p) c (browser_worker p))"
    using cleanup_inert [of "logger p" c "browser_worker p"]
    by (intro orderly_suffix [OF o] cleanup_occupancy) (simp add: inert)
  have ci: "pulled (cleanup (logger p) c (browser_worker p)) = [] \<and> saved (cleanup (logger p) c (browser_worker p)) = []"
    using cleanup_inert [of "logger p" c "browser_worker p"] by (simp add: inert)
  note simps = run_shape_def run_worker_def saved_append pulled_append closed_append closed_cleanup
    saved_map_Log still_pulled [OF tr] closed_map_Log
  show ?thesis
  proof (cases we)
    case Waiting
    with w rest o show ?thesis by (auto simp: simps)
  next
    case (Raised e)
    with w rest oc ci show ?thesis by (auto simp: simps)
  next
    case Exhausted
    with w rest oc ci show ?thesis by (auto simp: simps)
  next
    case Broke
    with w rest oc ci show ?thesis by (auto simp: simps)
  qed
qed

lemma run_with_trace: "run_shape (webdriver rw) (run_with cfg rw)"
  using run_with_cases [of cfg rw]
proof (elim disjE exE conjE)
  fix lg e
  assume "run_with cfg rw = (map Log lg, Propagates e)"
  then show ?thesis
    using still_orderly [OF still_map_Log [of lg]]
    by (simp add: run_shape_def saved_map_Log closed_map_Log still_pulled [OF still_map_Log])
next
  fix p src c lg st
  assume b: "browser_worker p = webdriver rw"
    and r: "run_with cfg rw = run_worker p (task_worlds rw) src c (map Log lg) st"
  show ?thesis
    using run_worker_trace [of p "task_worlds rw" src c lg st] b r by simp
qed

lemma run_trace: "run_shape (webdriver rw) (run rw)"
proof (cases "Config_load (environ rw)")
  case (Inl e)
  then show ?thesis
    using still_orderly [of "[]"] by (simp add: run_def run_shape_def)
next
  case (Inr cfg)
  then show ?thesis
    using run_with_trace [of rw cfg] by (simp add: run_def)
qed

lemma loads_broken: "loads msg_broken = Inl ''Expecting value: line 1 column 9 (char 8)''"
proof -
  have "msg_broken \<noteq> msg_quora"
  proof
    assume "msg_broken = msg_quora"
    then have "length msg_broken = length msg_quora"
      by (rule arg_cong)
    then show False
      by (simp add: msg_broken_def msg_quora_def utf8_def)
  qed
  then show ?thesis
    by (simp add: loads_def)
qed

lemma latency_example': "round2 (elapsed_ms 10 (81 / 8)) = 125"
  using latency_example by simp

lemma loads_quora: "loads msg_quora = Inr task_quora"
  by (simp add: loads_def)

lemma run_degraded:
  "run rw_degraded =
     ([Log (WARNING, ''Mongo not configured or motor missing; persistence disabled'', []),
       Log (WARNING, ''aiokafka not installed; using synthetic tasks'', []),
       Pulled \<lparr>url = ''https://example.org/'', id' = None, priority = None\<rparr>,
       Saved \<lparr>doc_id = ''0123456789abcdef'', doc_url = ''https://example.org/'',
          status_code = Some 200, fetched_at = ''2024-01-01T00:00:00Z'',
          latency_ms = 125, content_length = 2, html = Some ''OK'',
          error = None, meta = [(''priority'', None)], question = None, answer = None\<rparr>,
       Done,
       Pulled \<lparr>url = ''https://www.python.org/'', id' = None, priority = None\<rparr>,
       Saved \<lparr>doc_id = ''0123456789abcdef'', doc_url = ''https://www.python.org/'',
          status_code = Some 200, fetched_at = ''2024-01-01T00:00:00Z'',
          latency_ms = 125, content_length = 2, html = Some ''OK'',
          error = None, meta = [(''priority'', None)], question = None, answer = None\<rparr>,
       Done, Closed TaskSource, Closed FetchStage, Closed PersistenceStage], Exit 0)"
  by (simp add: rw_degraded_def Config_load_fetches [OF py_int_1] run_eval latency_example')

lemma run_signal:
  "run rw_signal =
     ([Log (WARNING, ''Mongo not configured or motor missing; persistence disabled'', []),
       SignalSet,
       Pulled task_quora,
       Saved \<lparr>doc_id = ''q1'', doc_url = ''https://www.quora.com/What-is-Python'',
          status_code = Some 200, fetched_at = ''2024-01-01T00:00:00Z'',
          latency_ms = 125, content_length = 2, html = Some ''OK'',
          error = None, meta = [(''priority'', None)], question = None, answer = None\<rparr>,
       Done, Closed TaskSource, Closed FetchStage, Closed PersistenceStage], Exit 0)"
  by (simp add: rw_signal_def rw_degraded_def Config_load_fetches [OF py_int_10] run_eval latency_example' loads_quora task_quora_def)

lemma run_busy:
  "run rw_busy =
     ([Log (WARNING, ''Mongo not configured or motor missing; persistence disabled'', []),
       Pulled task_quora,
       SignalSet,
       Saved \<lparr>doc_id = ''q1'', doc_url = ''https://www.quora.com/What-is-Python'',
          status_code = Some 200, fetched_at = ''2024-01-01T00:00:00Z'',
          latency_ms = 125, content_length = 2, html = Some ''OK'',
          error = None, meta = [(''priority'', None)], question = None, answer = None\<rparr>,
       Done, Closed TaskSource, Closed FetchStage, Closed PersistenceStage], Exit 0)"
  by (simp add: rw_busy_def rw_degraded_def Config_load_fetches [OF py_int_10] run_eval latency_example' loads_quora task_quora_def)

lemma run_mixed:
  "run rw_mixed =
     ([Log (WARNING, ''Mongo not configured or motor missing; persistence disabled'', []),
       Closed TaskSource, Closed FetchStage, Closed PersistenceStage],
      Propagates (Exception (''Logger._log() got an unexpected keyword argument '' @ quoted ''error'')))"
  by (simp add: rw_mixed_def rw_degraded_def Config_load_fetches [OF py_int_10] run_eval latency_example' loads_broken loads_quora task_quora_def)



text \<open>
  C4, amended. The shutdown event is tested once, at the end of the loop body. At most
  one task is pulled after the event is set, and only when the event was set while no
  task was in the loop body, the worker waiting for a message; a task in the loop body
  when the event is set is the last one pulled. A signal that arrives while a task is
  processed changes neither the outcome of the task nor what is saved. \<^verbatim>\<open>save_page\<close> has
  returned for every task pulled, in order, except for the last one when the run ends
  with an exception. The stages are closed in the order Task Source, Fetch Stage,
  Persistence Stage, and Extraction Stage when there is a browser worker, or not at all;
  they are closed when the run exits with code 0.
\<close>

theorem shutdown_after_current_task:
  "length (pulled_after_signal (fst (run rw))) \<le> 1 \<and>
   (pulled_after_signal (fst (run rw)) \<noteq> [] \<longrightarrow>
      occupancy (takeWhile (\<lambda>m. m \<noteq> SignalSet) (fst (run rw))) = 0) \<and>
   snd (process_task p (tw\<lparr> signal_during := Some name \<rparr>) st task)
     = snd (process_task p (tw\<lparr> signal_during := None \<rparr>) st task) \<and>
   saved (fst (process_task p (tw\<lparr> signal_during := Some name \<rparr>) st task))
     = saved (fst (process_task p (tw\<lparr> signal_during := None \<rparr>) st task)) \<and>
   (map doc_url (saved (fst (run rw))) = map url (pulled (fst (run rw))) \<or>
    (\<exists>e. snd (run rw) = Propagates e) \<and>
    map doc_url (saved (fst (run rw))) = butlast (map url (pulled (fst (run rw))))) \<and>
   (closed (fst (run rw)) = [] \<or>
    closed (fst (run rw))
      = [TaskSource, FetchStage, PersistenceStage] @ (if webdriver rw then [ExtractionStage] else [])) \<and>
   (snd (run rw) = Exit 0 \<longrightarrow>
      closed (fst (run rw))
        = [TaskSource, FetchStage, PersistenceStage] @ (if webdriver rw then [ExtractionStage] else []))"
proof -
  have a: "snd (process_task p (tw\<lparr> signal_during := Some name \<rparr>) st task)
             = snd (process_task p (tw\<lparr> signal_during := None \<rparr>) st task)"
    by (simp add: process_task_def split: sum.splits prod.splits)
  have b: "saved (fst (process_task p (tw\<lparr> signal_during := Some name \<rparr>) st task))
             = saved (fst (process_task p (tw\<lparr> signal_during := None \<rparr>) st task))"
    by (simp add: process_task_def saved_append saved_signal_handler split: sum.splits prod.splits)
  show ?thesis
    using run_trace [of rw] a b by (simp add: run_shape_def orderly_def)
qed

theorem shutdown_after_current_task_witness:
  "snd (run rw_signal) = Exit 0 \<and>
   closed (fst (run rw_signal)) = [TaskSource, FetchStage, PersistenceStage] \<and>
   pulled_after_signal (fst (run rw_signal)) \<noteq> [] \<and>
   occupancy (takeWhile (\<lambda>m. m \<noteq> SignalSet) (fst (run rw_signal))) = 0 \<and>
   snd (run rw_busy) = Exit 0 \<and>
   pulled (fst (run rw_busy)) = [task_quora] \<and>
   map doc_url (saved (fst (run rw_busy))) = [url task_quora] \<and>
   pulled_after_signal (fst (run rw_busy)) = []"
proof -
  have e: "snd (run rw_signal) = Exit 0"
    by (simp add: run_signal)
  have w: "\<not> webdriver rw_signal"
    by (simp add: rw_signal_def rw_degraded_def)
  have p: "pulled_after_signal (fst (run rw_signal)) \<noteq> []"
    by (simp add: run_signal pulled_after_signal_def)
  have e': "snd (run rw_busy) = Exit 0"
    by (simp add: run_busy)
  have p': "pulled (fst (run rw_busy)) = [task_quora]"
    by (simp add: run_busy)
  have q': "pulled_after_signal (fst (run rw_busy)) = []"
    by (simp add: run_busy pulled_after_signal_def)
  from shutdown_after_current_task [of rw_signal] shutdown_after_current_task [of rw_busy] e w p e' p' q'
  show ?thesis
    by simp
qed

text \<open>
  C4, counterexample. SIGTERM arrives while the worker waits for a message, at the log
  level \<^verbatim>\<open>WARNING\<close>; the handler sets the shutdown event, and the task of the next
  message is pulled, fetched and handed to \<^verbatim>\<open>save_page\<close> after that.
\<close>

theorem stops_pulling_counterexample:
  "configure_logging (structlog rw_signal) ''WARNING'' = Inr 30 \<and>
   events rw_signal = [Signal ''SIGTERM'', GetOne (Inr msg_quora)] \<and>
   pulled_after_signal (fst (run rw_signal)) = [task_quora] \<and>
   map doc_url (saved (fst (run rw_signal))) = [url task_quora] \<and>
   snd (run rw_signal) = Exit 0"
  by (simp add: run_signal pulled_after_signal_def task_quora_def)
    (simp add: rw_signal_def rw_degraded_def configure_WARNING)

subsection \<open>Persistence Stage\<close>

text \<open>
  C7. Without a collection, \<^verbatim>\<open>save_page\<close> returns normally and leaves the store as it
  is, for every document and whatever the driver would do. The store has no collection
  when \<^verbatim>\<open>MONGO_URI\<close> is unset or empty or motor is missing. The rest of the loop body
  is as it is: processing a task returns the same store and never consults the driver.
\<close>

theorem save_page_disabled_noop:
  "(collection st = None \<longrightarrow> save_page drv st doc = Inr st) \<and>
   (\<not> truthy (mongo_uri cfg) \<or> \<not> motor_ok \<longrightarrow>
      collection (fst (MongoStore_init lgr cfg motor_ok docs)) = None) \<and>
   (collection st = None \<longrightarrow>
      (\<forall>ms st'. process_task p tw st task = (ms, Inr st') \<longrightarrow> st' = st) \<and>
      process_task (p\<lparr> driver := drv \<rparr>) tw st task = process_task p tw st task)"
proof -
  have a: "collection st = None \<Longrightarrow> save_page drv' st d = Inr st" for drv' d
    by (simp add: save_page_def)
  have b: "\<not> truthy (mongo_uri cfg) \<or> \<not> motor_ok \<Longrightarrow>
             collection (fst (MongoStore_init lgr cfg motor_ok docs)) = None"
    by (auto simp: MongoStore_init_def)
  have ex: "extraction (p\<lparr> driver := drv \<rparr>) bw d = extraction p bw d" for bw d
    by (simp add: extraction_def)
  have c: "(\<forall>ms st'. process_task p tw st task = (ms, Inr st') \<longrightarrow> st' = st) \<and>
           process_task (p\<lparr> driver := drv \<rparr>) tw st task = process_task p tw st task"
    if "collection st = None"
  proof (cases "fetch (logger p) (fetching tw) task")
    case (Inl e)
    then show ?thesis by (simp add: process_task_def split: option.splits)
  next
    case (Inr r)
    obtain page_doc lg where r: "r = (page_doc, lg)" by (cases r)
    obtain lg2 x where e: "extraction p (browsing tw) page_doc = (lg2, x)"
      by (cases "extraction p (browsing tw) page_doc")
    show ?thesis
      using Inr r e a [OF that] by (cases x) (auto simp: process_task_def ex split: sum.splits option.splits)
  qed
  show ?thesis
    using a b c by blast
qed

theorem save_page_disabled_noop_witness:
  "mongo_uri cfg_zero = None \<and>
   collection (fst (MongoStore_init 30 cfg_zero True [])) = None \<and>
   (\<forall>doc. save_page motor_driver \<lparr> collection = None \<rparr> doc = Inr \<lparr> collection = None \<rparr>) \<and>
   map doc_url (saved (fst (run rw_degraded))) = [''https://example.org/'', ''https://www.python.org/''] \<and>
   snd (run rw_degraded) = Exit 0"
proof -
  have u: "\<not> truthy (mongo_uri cfg_zero) \<or> \<not> True"
    by (simp add: cfg_zero_def)
  have n: "collection \<lparr> collection = None \<rparr> = None"
    by simp
  from save_page_disabled_noop [of "\<lparr> collection = None \<rparr>" motor_driver _ cfg_zero True 30 "[]"] u n
  have "collection (fst (MongoStore_init 30 cfg_zero True [])) = None \<and>
        (\<forall>doc. save_page motor_driver \<lparr> collection = None \<rparr> doc = Inr \<lparr> collection = None \<rparr>)"
    by blast
  then show ?thesis
    by (simp add: run_degraded) (simp add: cfg_zero_def)
qed

subsection \<open>Task Source\<close>

lemma tasks_Live_Nil: "tasks lgr cd (Live []) = ([], Pending, [])"
  by (subst tasks.simps) simp

lemma tasks_skip:
  "decode cd m = Inl msg \<Longrightarrow>
     tasks lgr cd (Live (GetOne (Inr m) # es)) =
       (case log_call lgr ERROR ''invalid_message'' [(''error'', PyStr msg)] of
          Inl e \<Rightarrow> ([], Raise e, [])
        | Inr lg \<Rightarrow> (case tasks lgr cd (Live es) of (ts, r, ms) \<Rightarrow> (ts, r, map Log lg @ ms)))"
  apply (subst tasks.simps)
  apply (subst (2) tasks.simps)
  apply (auto split: prod.splits gen_result.splits sum.splits)
  done

lemma tasks_valid:
  "decode cd m = Inr t \<Longrightarrow>
     tasks lgr cd (Live (GetOne (Inr m) # es)) =
       (case tasks lgr cd (Live es) of (ts, r, ms) \<Rightarrow> (t # ts, r, ms))"
  by (subst tasks.simps) (simp split: prod.splits)

lemma tasks_signal:
  "tasks lgr cd (Live (Signal name # es)) =
       (case tasks lgr cd (Live es) of (ts, r, ms) \<Rightarrow> (ts, r, signal_handler lgr name @ ms))"
  apply (subst tasks.simps)
  apply (subst (2) tasks.simps)
  apply (auto split: prod.splits gen_result.splits)
  done

lemma tasks_raise:
  "tasks lgr cd (Live (GetOne (Inl e) # es)) = ([], if e = CancelledError then Return else Raise e, [])"
  by (subst tasks.simps) simp

lemma tasks_synthetic:
  "tasks lgr cd (Synthetic us) = (map (\<lambda>u. \<lparr> url = HttpUrl cd u, id' = None, priority = None \<rparr>) us, Return, [])"
proof (induction us)
  case Nil
  show ?case by (subst tasks.simps) simp
next
  case (Cons u us)
  then show ?case by (subst tasks.simps) simp
qed

lemma tasks_return_cancelled:
  "tasks lgr cd (Live es) = (ts, Return, ms) \<Longrightarrow> GetOne (Inl CancelledError) \<in> set es"
proof (induction es arbitrary: ts ms)
  case Nil
  then show ?case by (simp add: tasks_Live_Nil)
next
  case (Cons ev es)
  show ?case
  proof (cases ev)
    case (Signal name)
    with Cons show ?thesis by (auto simp: tasks_signal split: prod.splits)
  next
    case (GetOne x)
    show ?thesis
    proof (cases x)
      case (Inl e)
      with Cons.prems GetOne show ?thesis by (auto simp: tasks_raise split: if_splits)
    next
      case (Inr m)
      with Cons GetOne show ?thesis
        by (cases "decode cd m") (auto simp: tasks_skip tasks_valid split: prod.splits sum.splits)
    qed
  qed
qed

lemma tasks_replicate:
  "decode cd m = Inr t \<Longrightarrow> tasks lgr cd (Live (replicate n (GetOne (Inr m)))) = (replicate n t, Pending, [])"
  by (induction n) (simp_all add: tasks_Live_Nil tasks_valid)

text \<open>
  C6. Without a consumer the generator yields the tasks of the two sample URLs,
  \<^verbatim>\<open>https://example.org\<close> then \<^verbatim>\<open>https://www.python.org\<close>, each as pydantic renders
  it, and returns. On a live consumer it returns only when \<^verbatim>\<open>getone\<close> is cancelled,
  and \<open>n\<close> valid messages give \<open>n\<close> tasks for every \<open>n\<close>, the generator then waiting for
  the next message.
\<close>

theorem degraded_tasks_bounded:
  "sample_urls = [''https://example.org'', ''https://www.python.org''] \<and>
   tasks lgr cd (Synthetic sample_urls) =
     ([\<lparr> url = HttpUrl cd ''https://example.org'', id' = None, priority = None \<rparr>,
       \<lparr> url = HttpUrl cd ''https://www.python.org'', id' = None, priority = None \<rparr>], Return, []) \<and>
   (\<forall>es. fst (snd (tasks lgr cd (Live es))) = Return \<longrightarrow> GetOne (Inl CancelledError) \<in> set es) \<and>
   (\<forall>m t n. decode cd m = Inr t \<longrightarrow>
      tasks lgr cd (Live (replicate n (GetOne (Inr m)))) = (replicate n t, Pending, []))"
proof -
  have b: "fst (snd (tasks lgr cd (Live es))) = Return \<Longrightarrow> GetOne (Inl CancelledError) \<in> set es" for es
    using tasks_return_cancelled [of lgr cd es] by (cases "tasks lgr cd (Live es)") auto
  show ?thesis
    using b by (simp add: tasks_synthetic sample_urls_def tasks_replicate)
qed

theorem degraded_tasks_bounded_witness:
  "tasks 30 pydantic_v2 (Synthetic sample_urls) =
     ([\<lparr> url = ''https://example.org/'', id' = None, priority = None \<rparr>,
       \<lparr> url = ''https://www.python.org/'', id' = None, priority = None \<rparr>], Return, []) \<and>
   decode pydantic_v2 msg_quora = Inr task_quora \<and>
   tasks 30 pydantic_v2 (Live (replicate 3 (GetOne (Inr msg_quora)))) = (replicate 3 task_quora, Pending, []) \<and>
   fst (snd (tasks 30 pydantic_v2 (Live [GetOne (Inl CancelledError)]))) = Return \<and>
   GetOne (Inl CancelledError) \<in> set [GetOne (Inl CancelledError) :: loop_event]"
proof -
  have r: "fst (snd (tasks 30 pydantic_v2 (Live [GetOne (Inl CancelledError)]))) = Return"
    by (simp add: tasks_raise)
  have q: "decode pydantic_v2 msg_quora = Inr task_quora"
    by (simp add: pydantic_v2_def loads_quora)
  have h: "HttpUrl pydantic_v2 ''https://example.org'' = ''https://example.org/''"
    "HttpUrl pydantic_v2 ''https://www.python.org'' = ''https://www.python.org/''"
    by (simp_all add: pydantic_v2_def sample_urls_def)
  from degraded_tasks_bounded [of 30 pydantic_v2] r q h show ?thesis
    by simp
qed

subsection \<open>Task Source: malformed messages\<close>

text \<open>
  C5. When a message fails to deserialize and the logger has the level ERROR enabled,
  the handler's call \<^verbatim>\<open>logger.error("invalid_message", error=...)\<close> raises
  \<^verbatim>\<open>TypeError\<close>, which leaves the generator: the sequence ends with this exception,
  nothing is logged, and no later message is yielded. When ERROR is not enabled, which
  is the level \<^verbatim>\<open>CRITICAL\<close>, the message is skipped and nothing is logged.
\<close>

theorem malformed_message_ends_sequence:
  assumes "decode cd m = Inl msg"
  shows "(lgr \<le> 40 \<longrightarrow>
            tasks lgr cd (Live (GetOne (Inr m) # es))
              = ([], Raise (Exception (''Logger._log() got an unexpected keyword argument '' @ quoted ''error'')), [])) \<and>
         (40 < lgr \<longrightarrow> tasks lgr cd (Live (GetOne (Inr m) # es)) = tasks lgr cd (Live es))"
  using assms by (auto simp: tasks_skip log_call_def split: prod.splits)

theorem malformed_message_ends_sequence_witness:
  "decode pydantic_v2 msg_broken = Inl ''Expecting value: line 1 column 9 (char 8)'' \<and>
   decode pydantic_v2 msg_quora = Inr task_quora \<and>
   tasks 30 pydantic_v2 (Live [GetOne (Inr msg_broken), GetOne (Inr msg_quora)])
     = ([], Raise (Exception (''Logger._log() got an unexpected keyword argument '' @ quoted ''error'')), []) \<and>
   tasks 50 pydantic_v2 (Live [GetOne (Inr msg_broken), GetOne (Inr msg_quora)]) = ([task_quora], Pending, []) \<and>
   events rw_mixed = [GetOne (Inr msg_broken), GetOne (Inr msg_quora)] \<and>
   pulled (fst (run rw_mixed)) = [] \<and>
   snd (run rw_mixed)
     = Propagates (Exception (''Logger._log() got an unexpected keyword argument '' @ quoted ''error''))"
proof -
  have b: "decode pydantic_v2 msg_broken = Inl ''Expecting value: line 1 column 9 (char 8)''"
    by (simp add: pydantic_v2_def loads_broken)
  have q: "decode pydantic_v2 msg_quora = Inr task_quora"
    by (simp add: pydantic_v2_def loads_quora)
  have t: "tasks 50 pydantic_v2 (Live [GetOne (Inr msg_quora)]) = ([task_quora], Pending, [])"
    using q by (simp add: tasks_valid tasks_Live_Nil)
  from malformed_message_ends_sequence [OF b, of 30 "[GetOne (Inr msg_quora)]"]
    malformed_message_ends_sequence [OF b, of 50 "[GetOne (Inr msg_quora)]"] t
  have "tasks 30 pydantic_v2 (Live [GetOne (Inr msg_broken), GetOne (Inr msg_quora)])
          = ([], Raise (Exception (''Logger._log() got an unexpected keyword argument '' @ quoted ''error'')), []) \<and>
        tasks 50 pydantic_v2 (Live [GetOne (Inr msg_broken), GetOne (Inr msg_quora)]) = ([task_quora], Pending, [])"
    by simp
  then show ?thesis
    using b q by (simp add: run_mixed) (simp add: rw_mixed_def rw_degraded_def)
qed

subsection \<open>parser.py\<close>

lemmas soup_eval = html_parser_def tokenize_def split_on_def piece_tokens_def
  tag_token_def data_token_def lower_def strip_def is_space_def

lemma soup_scenario:
  "html_parser scenario_html =
     [Element ''div'' [(''class'', ''puppeteer_test_question_title'')] [Text ''What is Python?''],
      Element ''p'' [(''class'', ''q-text qu-display--block qu-wordBreak--break-word qu-textAlign--start'')]
        [Text ''Python is a programming language.'']]"
  by (simp add: scenario_html_def soup_eval)

lemma soup_plain: "html_parser ''<p>hello</p>'' = [Element ''p'' [] [Text ''hello'']]"
  by (simp add: soup_eval)

text \<open>
  C8. On the HTML of the scenario \<^verbatim>\<open>extract_question_answer\<close> returns the question
  \<^verbatim>\<open>What is Python?\<close> and the answer \<^verbatim>\<open>Python is a programming language.\<close> Whatever
  the markup, once BeautifulSoup has parsed it: when \<^verbatim>\<open>select_one\<close> finds no match for
  a selector, the function returns, and the field of that selector is \<open>None\<close>.
\<close>

theorem extract_question_answer_scenario:
  "extract_question_answer bs4_fragment scenario_html
     = Inr (Some ''What is Python?'', Some ''Python is a programming language.'') \<and>
   (\<forall>lib markup soup. BeautifulSoup lib markup ''html.parser'' = Inr soup \<longrightarrow>
      select_one lib soup QUESTION_SELECTOR = None \<longrightarrow>
      (\<exists>a. extract_question_answer lib markup = Inr (None, a))) \<and>
   (\<forall>lib markup soup. BeautifulSoup lib markup ''html.parser'' = Inr soup \<longrightarrow>
      select_one lib soup ANSWER_SELECTOR = None \<longrightarrow>
      (\<exists>q. extract_question_answer lib markup = Inr (q, None)))"
proof -
  have a: "extract_question_answer bs4_fragment scenario_html
             = Inr (Some ''What is Python?'', Some ''Python is a programming language.'')"
    by (simp add: extract_question_answer_def bs4_fragment_def soup_scenario css_select_one_def
          QUESTION_SELECTOR_def ANSWER_SELECTOR_def split_on_def words_def is_space_def tag_get_text_def strip_def)
  have b: "\<exists>a. extract_question_answer lib markup = Inr (None, a)"
    if "BeautifulSoup lib markup ''html.parser'' = Inr soup" "select_one lib soup QUESTION_SELECTOR = None"
    for lib :: "('a, 'b) bs4" and markup soup
    using that by (simp add: extract_question_answer_def Let_def)
  have c: "\<exists>q. extract_question_answer lib markup = Inr (q, None)"
    if "BeautifulSoup lib markup ''html.parser'' = Inr soup" "select_one lib soup ANSWER_SELECTOR = None"
    for lib :: "('c, 'd) bs4" and markup soup
    using that by (simp add: extract_question_answer_def Let_def)
  show ?thesis
    by (intro conjI allI impI) (rule a, erule (1) b, erule (1) c)
qed

theorem extract_question_answer_scenario_witness:
  "BeautifulSoup bs4_fragment ''<p>hello</p>'' ''html.parser'' = Inr [Element ''p'' [] [Text ''hello'']] \<and>
   select_one bs4_fragment [Element ''p'' [] [Text ''hello'']] QUESTION_SELECTOR = None \<and>
   select_one bs4_fragment [Element ''p'' [] [Text ''hello'']] ANSWER_SELECTOR = None \<and>
   extract_question_answer bs4_fragment ''<p>hello</p>'' = Inr (None, None)"
proof -
  let ?soup = "[Element ''p'' [] [Text ''hello'']]"
  have p: "BeautifulSoup bs4_fragment ''<p>hello</p>'' ''html.parser'' = Inr ?soup"
    by (simp add: bs4_fragment_def soup_plain)
  have q: "select_one bs4_fragment ?soup QUESTION_SELECTOR = None"
    by (simp add: bs4_fragment_def css_select_one_def QUESTION_SELECTOR_def split_on_def)
  have a: "select_one bs4_fragment ?soup ANSWER_SELECTOR = None"
    by (simp add: bs4_fragment_def css_select_one_def ANSWER_SELECTOR_def split_on_def)
  from extract_question_answer_scenario [THEN conjunct2, THEN conjunct1, rule_format, OF p q]
  obtain x where x: "extract_question_answer bs4_fragment ''<p>hello</p>'' = Inr (None, x)"
    by (elim exE)
  from extract_question_answer_scenario [THEN conjunct2, THEN conjunct2, rule_format, OF p a]
  obtain y where y: "extract_question_answer bs4_fragment ''<p>hello</p>'' = Inr (y, None)"
    by (elim exE)
  from x y have "extract_question_answer bs4_fragment ''<p>hello</p>'' = Inr (None, None)"
    by simp
  with p q a show ?thesis by (intro conjI)
qed

subsection \<open>Configuration\<close>

lemma py_float_0: "py_float ''0'' = Inr 0"
  by (simp add: py_float_def strip_def is_space_def split_sign_def digit_val_def double_def)

lemma double_5: "double (- 5) = - 5"
  by (simp add: double_def ilog2_def bit_length.simps pow2_def round_even_def)

lemma double_1000: "double 1000 = 1000"
  by (simp add: double_def ilog2_def bit_length.simps pow2_def round_even_def)

lemma py_float_neg5: "py_float ''-5'' = Inr (- 5)"
  by (simp add: py_float_def strip_def is_space_def split_sign_def digit_val_def double_5)

lemma py_float_1000: "py_float ''1000'' = Inr 1000"
  by (simp add: py_float_def strip_def is_space_def split_sign_def digit_val_def double_1000)

lemma Config_load_timeout:
  "py_float t = Inr x \<Longrightarrow> t \<noteq> [] \<Longrightarrow>
     Config_load (env_all t ''10'') = Inr (cfg_zero\<lparr> http_timeout_seconds := x, max_concurrent_fetches := 10 \<rparr>)"
  by (simp add: Config_load_def env_all_def getenv_or_cls_def and_then_def py_int_10 upper_WARNING cfg_zero_def)

text \<open>
  C9. \<^verbatim>\<open>Settings.load\<close> of \<^verbatim>\<open>src/quorabroker/config.py\<close> rejects a timeout of 0, of
  -5 and of 1000 seconds. \<^verbatim>\<open>Config.load\<close> of main.py, which is the configuration
  \<^verbatim>\<open>run\<close> hands to the \<^verbatim>\<open>Fetcher\<close>, accepts all three, and the HTTP client is built
  with the timeout 0.
\<close>

theorem Config_load_accepts_any_timeout:
  "Config_load (env_all ''0'' ''10'') = Inr (cfg_zero\<lparr> http_timeout_seconds := 0, max_concurrent_fetches := 10 \<rparr>) \<and>
   client_timeout (Fetcher_init (cfg_zero\<lparr> http_timeout_seconds := 0, max_concurrent_fetches := 10 \<rparr>)) = 0 \<and>
   Config_load (env_all ''-5'' ''10'') = Inr (cfg_zero\<lparr> http_timeout_seconds := - 5, max_concurrent_fetches := 10 \<rparr>) \<and>
   Config_load (env_all ''1000'' ''10'') = Inr (cfg_zero\<lparr> http_timeout_seconds := 1000, max_concurrent_fetches := 10 \<rparr>) \<and>
   Settings_load (env_all ''0'' ''10'') = Inl (Exception ''http_timeout_seconds: Input should be greater than 0'') \<and>
   Settings_load (env_all ''-5'' ''10'') = Inl (Exception ''http_timeout_seconds: Input should be greater than 0'') \<and>
   Settings_load (env_all ''1000'' ''10'')
     = Inl (Exception ''http_timeout_seconds: Input should be less than or equal to 300'')"
proof -
  have s: "Settings_load (env_all t ''10'') =
             (case py_float t of
                Inl e \<Rightarrow> Inl e
              | Inr x \<Rightarrow>
                  if \<not> 0 < x then Inl (Exception ''http_timeout_seconds: Input should be greater than 0'')
                  else if \<not> x \<le> 300 then
                    Inl (Exception ''http_timeout_seconds: Input should be less than or equal to 300'')
                  else Settings_load (env_all t ''10''))" for t
    by (simp add: Settings_load_def getenv_default_def env_all_def split: sum.splits)
  show ?thesis
    using s [of "''0''"] s [of "''-5''"] s [of "''1000''"]
    by (simp add: Config_load_timeout py_float_0 py_float_neg5 py_float_1000 Fetcher_init_def)
qed

end
